theory Spec2Isabelle
  imports Main
begin

section \<open>Data model of the router (router.ts)\<close>

text \<open>
  Route records are JavaScript objects that the router compares by reference
  (\<^verbatim>\<open>to.matched.indexOf(record) < 0\<close>) and mutates in place
  (\<^verbatim>\<open>record.leaveGuards = []\<close>). A record is therefore named by its
  reference, a natural number, and its mutable fields live in a store that maps
  references to field values. Guards, after-hooks and error handlers are user
  callbacks; each is named by a number and its behaviour is supplied from outside.

  The model covers \<^verbatim>\<open>resolve\<close>, \<^verbatim>\<open>push\<close>, \<^verbatim>\<open>replace\<close>,
  \<^verbatim>\<open>pushWithRedirect\<close>, \<^verbatim>\<open>navigate\<close>, \<^verbatim>\<open>runGuardQueue\<close>,
  \<^verbatim>\<open>extractChangingRecords\<close>, \<^verbatim>\<open>finalizeNavigation\<close>, \<^verbatim>\<open>triggerAfterEach\<close>,
  \<^verbatim>\<open>triggerError\<close>, \<^verbatim>\<open>isReady\<close>, \<^verbatim>\<open>markAsReady\<close> and \<^verbatim>\<open>handleScroll\<close>.
  The listener that \<^verbatim>\<open>createRouter\<close> attaches to the history, \<^verbatim>\<open>go\<close>, and the
  route table functions are left out, and so are the fields \<^verbatim>\<open>meta\<close> and
  \<^verbatim>\<open>href\<close> of a location and the warnings of \<^verbatim>\<open>resolve\<close>. After-hooks, error
  handlers and the history are taken to return without throwing.
\<close>

type_synonym ref = nat
type_synonym guard = nat
type_synonym params = "(string \<times> string) list"
type_synonym query = "(string \<times> string) list"
type_synonym HistoryState = "(string \<times> string) list"

text \<open>
  A \<^verbatim>\<open>RouteLocationNormalized\<close>. The field \<open>loc_id\<close> is the identity of the
  JavaScript object: \<^verbatim>\<open>resolve\<close> builds a new object on every call, and the
  router compares locations with \<^verbatim>\<open>!==\<close> and \<^verbatim>\<open>===\<close>.
  \<^verbatim>\<open>START_LOCATION_NORMALIZED\<close> is the object with identity 0.
\<close>

datatype location = Location
  (loc_id: nat)
  (fullPath: string)
  (path: string)
  (name: "string option")
  (params: params)
  (query: query)
  (hash: string)
  (matched: "ref list")
  (redirectedFrom: "location option")

section \<open>extractChangingRecords\<close>

text \<open>
  \<^verbatim>\<open>
  for (const record of from.matched) {
    if (to.matched.indexOf(record) < 0) leavingRecords.push(record)
    else updatingRecords.push(record)
  }
  for (const record of to.matched) {
    if (from.matched.indexOf(record as any) < 0) enteringRecords.push(record)
  }
  return [leavingRecords, updatingRecords, enteringRecords]
  \<close>
  The first loop walks \<open>from.matched\<close> and the second \<open>to.matched\<close>, each pushing in
  the order of the walk.
\<close>

fun fromLoop :: "ref list \<Rightarrow> ref list \<Rightarrow> ref list \<times> ref list \<Rightarrow> ref list \<times> ref list" where
  "fromLoop toM [] acc = acc"
| "fromLoop toM (r # rs) (leavingRecords, updatingRecords) =
     (if r \<notin> set toM then fromLoop toM rs (leavingRecords @ [r], updatingRecords)
      else fromLoop toM rs (leavingRecords, updatingRecords @ [r]))"

fun toLoop :: "ref list \<Rightarrow> ref list \<Rightarrow> ref list \<Rightarrow> ref list" where
  "toLoop fromM [] enteringRecords = enteringRecords"
| "toLoop fromM (r # rs) enteringRecords =
     (if r \<notin> set fromM then toLoop fromM rs (enteringRecords @ [r])
      else toLoop fromM rs enteringRecords)"

definition extractChangingRecords :: "location \<Rightarrow> location \<Rightarrow> ref list \<times> ref list \<times> ref list" where
  "extractChangingRecords to from =
     (let (leavingRecords, updatingRecords) = fromLoop (matched to) (matched from) ([], []);
          enteringRecords = toLoop (matched from) (matched to) []
      in (leavingRecords, updatingRecords, enteringRecords))"

definition leavingOf :: "location \<Rightarrow> location \<Rightarrow> ref list" where
  "leavingOf to from = fst (extractChangingRecords to from)"

definition updatingOf :: "location \<Rightarrow> location \<Rightarrow> ref list" where
  "updatingOf to from = fst (snd (extractChangingRecords to from))"

definition enteringOf :: "location \<Rightarrow> location \<Rightarrow> ref list" where
  "enteringOf to from = snd (snd (extractChangingRecords to from))"

text \<open>A location with the given identity and matched chain, everything else empty.\<close>

definition mkLoc :: "nat \<Rightarrow> string \<Rightarrow> ref list \<Rightarrow> location" where
  "mkLoc i p ms = Location i p p None [] [] [] ms None"

section \<open>Raw targets, route records and errors\<close>

text \<open>
  A \<^verbatim>\<open>RouteLocationRaw\<close> is a string or an object. The router tests the object
  for the presence of keys (\<^verbatim>\<open>'path' in rawLocation\<close>), so each key is an option.
  \<open>state\<close>, \<open>force\<close> and \<open>replace\<close> are the \<^verbatim>\<open>RouteLocationOptions\<close>.
\<close>

record RawLocationObject =
  o_path :: "string option"
  o_name :: "string option"
  o_params :: "params option"
  o_query :: "query option"
  o_hash :: "string option"
  o_state :: "HistoryState option"
  o_force :: "bool option"
  o_replace :: "bool option"

datatype RouteLocationRaw = RawString string | RawObject RawLocationObject

datatype NavigationGuardKind = beforeRouteLeave | beforeRouteUpdate | beforeRouteEnter

text \<open>\<^verbatim>\<open>beforeEnter\<close> of a record: absent, one callback, or an array of callbacks.\<close>

datatype BeforeEnter = NoBeforeEnter | SingleBeforeEnter guard | ArrayBeforeEnter "guard list"

text \<open>
  The fields of a \<^verbatim>\<open>RouteRecordNormalized\<close> that router.ts reads or writes.
  \<open>redirect\<close> is \<open>None\<close> when the record has no \<^verbatim>\<open>redirect\<close> key; a constant
  redirect is a constant function. \<open>componentGuards\<close> gives, for each kind of
  in-component guard, the guards that the components of the record declare, in the
  order of the record's views.
\<close>

record RouteRecordNormalized =
  leaveGuards :: "guard list"
  updateGuards :: "guard list"
  instances :: "string \<rightharpoonup> nat"
  beforeEnter :: BeforeEnter
  redirect :: "(location \<Rightarrow> RouteLocationRaw) option"
  componentGuards :: "NavigationGuardKind \<Rightarrow> guard list"

datatype ErrorTypes =
    MATCHER_NOT_FOUND
  | NAVIGATION_GUARD_REDIRECT
  | NAVIGATION_ABORTED
  | NAVIGATION_CANCELLED
  | NAVIGATION_DUPLICATED

text \<open>
  What a promise of the router can be rejected with, or a function can throw:
  a \<^verbatim>\<open>NavigationFailure\<close> built by \<^verbatim>\<open>createRouterError(type, {from, to})\<close>,
  a \<^verbatim>\<open>NavigationRedirectError\<close> carrying the target a guard redirected to, the
  matcher's error, or any other \<^verbatim>\<open>Error\<close> (with its message).
\<close>

datatype RouterError =
    NavigationFailure ErrorTypes location location
  | NavigationRedirectError RouteLocationRaw
  | MatcherError string
  | PlainError string

fun errType :: "RouterError \<Rightarrow> ErrorTypes option" where
  "errType (NavigationFailure t from to) = Some t"
| "errType (NavigationRedirectError l) = Some NAVIGATION_GUARD_REDIRECT"
| "errType (MatcherError m) = Some MATCHER_NOT_FOUND"
| "errType (PlainError m) = None"

text \<open>
  The state of a promise when the pipeline looks at it. \<open>Pending\<close> is a promise that
  never settles (a guard that never calls \<^verbatim>\<open>next\<close>).
\<close>

datatype 'a Promise = Fulfilled 'a | Rejected RouterError | Pending

text \<open>A call either throws synchronously or returns.\<close>

datatype 'a Call = Threw RouterError | Returned 'a

text \<open>What a guard does with \<^verbatim>\<open>next\<close>.\<close>

datatype GuardOutcome =
    Next
  | NextFalse
  | NextLocation RouteLocationRaw
  | NextError string
  | NeverSettles

datatype HistoryCall =
    HistoryPush location "HistoryState option"
  | HistoryReplace location "HistoryState option"

section \<open>The router's state\<close>

text \<open>
  The variables that \<^verbatim>\<open>createRouter\<close> closes over. The calls made to the
  collaborators (history, after-hooks, error handlers, scroll behaviour, \<^verbatim>\<open>warn\<close>)
  are recorded in the order they are made. \<open>nextLocation\<close> is the identity that the
  next object built by \<^verbatim>\<open>resolve\<close> receives; \<open>readySettled\<close> lists the promises
  handed out by \<^verbatim>\<open>isReady\<close> that have been settled, with \<open>None\<close> for resolved and
  \<open>Some err\<close> for rejected.
\<close>

record Router =
  currentRoute :: location
  pendingLocation :: location
  nextLocation :: nat
  records :: "ref \<Rightarrow> RouteRecordNormalized"
  beforeGuards :: "guard list"
  beforeResolveGuards :: "guard list"
  afterGuards :: "nat list"
  afterEachCalls :: "(nat \<times> location \<times> location \<times> RouterError option) list"
  errorHandlers :: "nat list"
  errorHandlerCalls :: "(nat \<times> RouterError) list"
  ready :: bool
  readyHandlers :: "nat list"
  readySettled :: "(nat \<times> RouterError option) list"
  nextPromise :: nat
  historyCalls :: "HistoryCall list"
  scrollCalls :: "(location \<times> location \<times> bool \<times> bool) list"
  warnings :: "string list"

definition START_LOCATION_NORMALIZED :: location where
  "START_LOCATION_NORMALIZED = Location 0 ''/'' ''/'' None [] [] [] [] None"

section \<open>Collaborators that are not part of router.ts\<close>

record URL =
  url_fullPath :: string
  url_path :: string
  url_query :: query
  url_hash :: string

record MatcherLocationRaw =
  m_path :: "string option"
  m_name :: "string option"
  m_params :: "params option"

record MatcherLocation =
  ml_name :: "string option"
  ml_path :: string
  ml_params :: params
  ml_matched :: "ref list"

text \<open>
  router.ts imports the matcher, the URL and query codecs and the location comparison
  from other modules, and the guards are callbacks of the application. They are
  parameters of the model. \<open>DEV\<close> is the build constant \<^verbatim>\<open>__DEV__\<close>, \<open>isBrowser\<close>
  the constant of that name, \<open>hasScrollBehavior\<close> says whether the options carry a
  \<^verbatim>\<open>scrollBehavior\<close>. \<open>guardBehaviour g to from s\<close> is what guard \<open>g\<close> does when it is
  called with \<open>to\<close> and \<open>from\<close> in state \<open>s\<close>: how it calls \<^verbatim>\<open>next\<close>, and the state
  of the router when the pipeline resumes. Everything that happens while the guard is
  awaited, another navigation included, is part of that state change.
\<close>

record Env =
  DEV :: bool
  isBrowser :: bool
  hasScrollBehavior :: bool
  guardBehaviour :: "guard \<Rightarrow> location \<Rightarrow> location \<Rightarrow> Router \<Rightarrow> GuardOutcome \<times> Router"
  matcherResolve :: "MatcherLocationRaw \<Rightarrow> location \<Rightarrow> RouterError + MatcherLocation"
  parseURL :: "string \<Rightarrow> string \<Rightarrow> URL"
  stringifyURL :: "query option \<Rightarrow> string \<Rightarrow> string \<Rightarrow> string"
  encodeHash :: "string \<Rightarrow> string"
  normalizeQuery :: "query option \<Rightarrow> query"
  encodeParams :: "params \<Rightarrow> params"
  decodeParams :: "params \<Rightarrow> params"
  normalizeParams :: "params \<Rightarrow> params"
  isSameRouteLocation :: "location \<Rightarrow> location \<Rightarrow> bool"

text \<open>
  Modelled from the spec: \<^verbatim>\<open>guardToPromiseFn\<close> (navigationGuards.ts is not among the
  sources). A guard accepts (the promise resolves), aborts with \<^verbatim>\<open>false\<close>
  (\<^verbatim>\<open>NAVIGATION_ABORTED\<close>), redirects (\<^verbatim>\<open>NAVIGATION_GUARD_REDIRECT\<close> carrying the new
  target), or throws (the promise rejects with the error); a guard that never answers
  leaves the promise pending.
\<close>

definition guardToPromiseFn ::
  "Env \<Rightarrow> guard \<Rightarrow> location \<Rightarrow> location \<Rightarrow> Router \<Rightarrow> unit Promise \<times> Router" where
  "guardToPromiseFn env g to from s =
     (case guardBehaviour env g to from s of (outcome, s') \<Rightarrow>
        (case outcome of
           Next \<Rightarrow> (Fulfilled (), s')
         | NextFalse \<Rightarrow> (Rejected (NavigationFailure NAVIGATION_ABORTED from to), s')
         | NextLocation l \<Rightarrow> (Rejected (NavigationRedirectError l), s')
         | NextError m \<Rightarrow> (Rejected (PlainError m), s')
         | NeverSettles \<Rightarrow> (Pending, s')))"

text \<open>
  Modelled from the spec: \<^verbatim>\<open>extractComponentsGuards\<close> (navigationGuards.ts is not among
  the sources): the in-component guards of the given kind of every record of the list,
  in the order of the list.
\<close>

definition extractComponentsGuards :: "Router \<Rightarrow> ref list \<Rightarrow> NavigationGuardKind \<Rightarrow> guard list" where
  "extractComponentsGuards s ms guardType =
     concat (map (\<lambda>r. componentGuards (records s r) guardType) ms)"

section \<open>resolve\<close>

definition setRedirectedFrom :: "location option \<Rightarrow> location \<Rightarrow> location" where
  "setRedirectedFrom rf l =
     (case l of Location i fp p n ps q h ms old \<Rightarrow> Location i fp p n ps q h ms rf)"

text \<open>
  \<^verbatim>\<open>resolve(rawLocation, currentLocation)\<close> builds a new location object; \<open>i\<close> is the
  identity the object receives. A string is parsed by \<^verbatim>\<open>parseURL\<close> and its path given
  to the matcher; an object with a \<^verbatim>\<open>path\<close> key has that path parsed, an object without
  one has its params encoded, and hash, query and params are then taken from the
  object. The matcher may throw. \<^verbatim>\<open>redirectedFrom\<close> is \<^verbatim>\<open>undefined\<close> in the result.
\<close>

definition resolve :: "Env \<Rightarrow> nat \<Rightarrow> RouteLocationRaw \<Rightarrow> location \<Rightarrow> RouterError + location" where
  "resolve env i rawLocation currentLocation =
     (case rawLocation of
        RawString str \<Rightarrow>
          (let locationNormalized = parseURL env str (path currentLocation) in
           case matcherResolve env
                  \<lparr>m_path = Some (url_path locationNormalized), m_name = None, m_params = None\<rparr>
                  currentLocation of
             Inl err \<Rightarrow> Inl err
           | Inr matchedRoute \<Rightarrow>
               Inr (Location i (url_fullPath locationNormalized) (ml_path matchedRoute)
                      (ml_name matchedRoute) (decodeParams env (ml_params matchedRoute))
                      (url_query locationNormalized) (url_hash locationNormalized)
                      (ml_matched matchedRoute) None))
      | RawObject obj \<Rightarrow>
          (let matcherLocation =
                 (case o_path obj of
                    Some p \<Rightarrow>
                      \<lparr>m_path = Some (url_path (parseURL env p (path currentLocation))),
                       m_name = o_name obj, m_params = o_params obj\<rparr>
                  | None \<Rightarrow>
                      \<lparr>m_path = None, m_name = o_name obj,
                       m_params = Some (encodeParams env (case o_params obj of None \<Rightarrow> [] | Some ps \<Rightarrow> ps))\<rparr>)
           in case matcherResolve env matcherLocation currentLocation of
                Inl err \<Rightarrow> Inl err
              | Inr matchedRoute \<Rightarrow>
                  (let hash' = encodeHash env (case o_hash obj of None \<Rightarrow> [] | Some h \<Rightarrow> h);
                       params' = (case o_params obj of
                                    Some ps \<Rightarrow> normalizeParams env ps
                                  | None \<Rightarrow> decodeParams env (ml_params matchedRoute));
                       fullPath' = stringifyURL env (o_query obj) hash' (ml_path matchedRoute)
                   in Inr (Location i fullPath' (ml_path matchedRoute) (ml_name matchedRoute)
                             params' (normalizeQuery env (o_query obj)) hash'
                             (ml_matched matchedRoute) None))))"

definition emptyObject :: RawLocationObject where
  "emptyObject = \<lparr>o_path = None, o_name = None, o_params = None, o_query = None,
                  o_hash = None, o_state = None, o_force = None, o_replace = None\<rparr>"

text \<open>\<^verbatim>\<open>typeof to === 'string' ? { path: to } : to\<close>\<close>

definition locationAsObject :: "RouteLocationRaw \<Rightarrow> RawLocationObject" where
  "locationAsObject to =
     (case to of RawString str \<Rightarrow> emptyObject\<lparr>o_path := Some str\<rparr> | RawObject obj \<Rightarrow> obj)"

text \<open>
  The options read from \<open>to\<close> at the head of \<^verbatim>\<open>pushWithRedirect\<close>. On a string
  \<^verbatim>\<open>state\<close> and \<^verbatim>\<open>force\<close> are \<^verbatim>\<open>undefined\<close> and \<^verbatim>\<open>replace\<close> is a function, which
  is not \<^verbatim>\<open>=== true\<close>.
\<close>

definition stateOf :: "RouteLocationRaw \<Rightarrow> HistoryState option" where
  "stateOf to = (case to of RawString str \<Rightarrow> None | RawObject obj \<Rightarrow> o_state obj)"

definition forceOf :: "RouteLocationRaw \<Rightarrow> bool option" where
  "forceOf to = (case to of RawString str \<Rightarrow> None | RawObject obj \<Rightarrow> o_force obj)"

definition replaceOf :: "RouteLocationRaw \<Rightarrow> bool" where
  "replaceOf to = (case to of RawString str \<Rightarrow> False | RawObject obj \<Rightarrow> o_replace obj = Some True)"

text \<open>
  \<^verbatim>\<open>{ ...targetLocation, ...newTargetLocation, state: data, force, replace }\<close>: a key of
  the redirect's own target overrides the key of the resolved location, and the three
  options are those of the original call.
\<close>

definition redirectTarget ::
  "location \<Rightarrow> RawLocationObject \<Rightarrow> HistoryState option \<Rightarrow> bool option \<Rightarrow> bool \<Rightarrow> RawLocationObject" where
  "redirectTarget targetLocation newTargetLocation data force replace =
     \<lparr>o_path = (case o_path newTargetLocation of Some p \<Rightarrow> Some p | None \<Rightarrow> Some (path targetLocation)),
      o_name = (case o_name newTargetLocation of Some n \<Rightarrow> Some n | None \<Rightarrow> name targetLocation),
      o_params = (case o_params newTargetLocation of Some ps \<Rightarrow> Some ps | None \<Rightarrow> Some (params targetLocation)),
      o_query = (case o_query newTargetLocation of Some q \<Rightarrow> Some q | None \<Rightarrow> Some (query targetLocation)),
      o_hash = (case o_hash newTargetLocation of Some h \<Rightarrow> Some h | None \<Rightarrow> Some (hash targetLocation)),
      o_state = data, o_force = force, o_replace = Some replace\<rparr>"

text \<open>\<^verbatim>\<open>{ ...locationAsObject(failure.to), state: data, force, replace }\<close>\<close>

definition guardRedirectTarget ::
  "RouteLocationRaw \<Rightarrow> HistoryState option \<Rightarrow> bool option \<Rightarrow> bool \<Rightarrow> RawLocationObject" where
  "guardRedirectTarget failureTo data force replace =
     (locationAsObject failureTo)\<lparr>o_state := data, o_force := force, o_replace := Some replace\<rparr>"

text \<open>
  \<^verbatim>\<open>lastMatched && 'redirect' in lastMatched\<close>: the redirect of the last matched
  record, when there is a last record and it has one.
\<close>

definition lastMatchedRedirect :: "Router \<Rightarrow> location \<Rightarrow> (location \<Rightarrow> RouteLocationRaw) option" where
  "lastMatchedRedirect s targetLocation =
     (case matched targetLocation of [] \<Rightarrow> None
      | r # rs \<Rightarrow> redirect (records s (last (r # rs))))"

section \<open>Ready state, errors, scrolling, after hooks\<close>

text \<open>
  \<^verbatim>\<open>
  function markAsReady(err) {
    if (ready) return
    ready = true
    readyHandlers.list().forEach(([resolve, reject]) => (err ? reject(err) : resolve()))
    readyHandlers.reset()
  }
  \<close>
\<close>

definition markAsReady :: "RouterError option \<Rightarrow> Router \<Rightarrow> Router" where
  "markAsReady err s =
     (if ready s then s
      else s\<lparr>ready := True,
             readySettled := readySettled s @ map (\<lambda>p. (p, err)) (readyHandlers s),
             readyHandlers := []\<rparr>)"

text \<open>
  \<^verbatim>\<open>
  function triggerError(error) {
    markAsReady(error)
    errorHandlers.list().forEach(handler => handler(error))
    return Promise.reject(error)
  }
  \<close>
\<close>

definition triggerError :: "RouterError \<Rightarrow> Router \<Rightarrow> (RouterError option) Promise \<times> Router" where
  "triggerError error s =
     (let s1 = markAsReady (Some error) s;
          s2 = s1\<lparr>errorHandlerCalls := errorHandlerCalls s1 @ map (\<lambda>h. (h, error)) (errorHandlers s1)\<rparr>
      in (Rejected error, s2))"



text \<open>
  \<^verbatim>\<open>handleScroll\<close> returns at once unless the router runs in a browser with a
  \<^verbatim>\<open>scrollBehavior\<close>; otherwise it schedules the scroll behaviour with its four
  arguments. The scheduled work runs after the caller has gone on; the model records
  the request.
\<close>

definition handleScroll :: "Env \<Rightarrow> location \<Rightarrow> location \<Rightarrow> bool \<Rightarrow> bool \<Rightarrow> Router \<Rightarrow> Router" where
  "handleScroll env to from isPush isFirstNavigation s =
     (if \<not> isBrowser env \<or> \<not> hasScrollBehavior env then s
      else s\<lparr>scrollCalls := scrollCalls s @ [(to, from, isPush, isFirstNavigation)]\<rparr>)"

text \<open>\<^verbatim>\<open>for (const guard of afterGuards.list()) guard(to, from, failure)\<close>\<close>

definition triggerAfterEach :: "location \<Rightarrow> location \<Rightarrow> RouterError option \<Rightarrow> Router \<Rightarrow> Router" where
  "triggerAfterEach to from failure s =
     s\<lparr>afterEachCalls := afterEachCalls s @ map (\<lambda>h. (h, to, from, failure)) (afterGuards s)\<rparr>"

section \<open>finalizeNavigation\<close>

definition clearLeaving :: "ref \<Rightarrow> Router \<Rightarrow> Router" where
  "clearLeaving r s =
     s\<lparr>records := (records s)(r := (records s r)\<lparr>leaveGuards := [], instances := Map.empty\<rparr>)\<rparr>"

text \<open>
  The pending location is compared first; on a mismatch nothing else happens. Otherwise
  the leaving records are cleaned, the history is told to replace (on \<^verbatim>\<open>replace\<close> or
  on the first navigation) or to push when the call is a push, the current route is
  set, scrolling is requested and the router is marked ready. The \<^verbatim>\<open>scroll\<close> entry
  that the first navigation adds to the replaced state is read from the browser's own
  history state and is left out of the recorded call.
\<close>

definition finalizeNavigation ::
  "Env \<Rightarrow> location \<Rightarrow> location \<Rightarrow> bool \<Rightarrow> bool \<Rightarrow> HistoryState option \<Rightarrow> Router
     \<Rightarrow> RouterError option \<times> Router" where
  "finalizeNavigation env toLocation from isPush replace data s =
     (if loc_id (pendingLocation s) \<noteq> loc_id toLocation
      then (Some (NavigationFailure NAVIGATION_CANCELLED from toLocation), s)
      else
        (let s1 = fold clearLeaving (leavingOf toLocation from) s;
             isFirstNavigation = (loc_id from = loc_id START_LOCATION_NORMALIZED);
             s2 = (if isPush
                   then (if replace \<or> isFirstNavigation
                         then s1\<lparr>historyCalls := historyCalls s1 @ [HistoryReplace toLocation data]\<rparr>
                         else s1\<lparr>historyCalls := historyCalls s1 @ [HistoryPush toLocation data]\<rparr>)
                   else s1);
             s3 = s2\<lparr>currentRoute := toLocation\<rparr>;
             s4 = handleScroll env toLocation from isPush isFirstNavigation s3
         in (None, markAsReady None s4)))"

section \<open>Guard queues and navigate\<close>

text \<open>
  The state of a queue while it runs: the promise built so far, the router's state,
  and the guards that have been called, in the order of the calls.
\<close>

type_synonym Run = "unit Promise \<times> Router \<times> guard list"

text \<open>
  \<^verbatim>\<open>promise.then(() => guard())\<close>: the guard is called once the promise before it has
  resolved; a rejected or pending promise passes through and the guard is not called.
\<close>

definition thenGuard :: "Env \<Rightarrow> location \<Rightarrow> location \<Rightarrow> Run \<Rightarrow> guard \<Rightarrow> Run" where
  "thenGuard env to from run g =
     (case run of (p, s, called) \<Rightarrow>
        (case p of
           Fulfilled u \<Rightarrow>
             (case guardToPromiseFn env g to from s of (p', s') \<Rightarrow> (p', s', called @ [g]))
         | Rejected err \<Rightarrow> (p, s, called)
         | Pending \<Rightarrow> (p, s, called)))"

text \<open>
  \<^verbatim>\<open>guards.reduce((promise, guard) => promise.then(() => guard()), Promise.resolve())\<close>
\<close>

definition runGuardQueue :: "Env \<Rightarrow> guard list \<Rightarrow> location \<Rightarrow> location \<Rightarrow> Router \<Rightarrow> Run" where
  "runGuardQueue env guards to from s = foldl (thenGuard env to from) (Fulfilled (), s, []) guards"

text \<open>
  A \<^verbatim>\<open>.then(() => { guards = ...; return runGuardQueue(guards) })\<close> of \<^verbatim>\<open>navigate\<close>:
  when the stages before have resolved, the queue of the stage is built from the state
  of that moment and run.
\<close>

definition thenStage :: "Env \<Rightarrow> location \<Rightarrow> location \<Rightarrow> Run \<Rightarrow> (Router \<Rightarrow> guard list) \<Rightarrow> Run" where
  "thenStage env to from run mkGuards =
     (case run of (p, s, called) \<Rightarrow>
        (case p of
           Fulfilled u \<Rightarrow>
             (case runGuardQueue env (mkGuards s) to from s of
                (p', s', called') \<Rightarrow> (p', s', called @ called'))
         | Rejected err \<Rightarrow> (p, s, called)
         | Pending \<Rightarrow> (p, s, called)))"

text \<open>The six queues, as \<^verbatim>\<open>navigate\<close> builds them.\<close>

definition leaveQueue :: "Router \<Rightarrow> location \<Rightarrow> location \<Rightarrow> guard list" where
  "leaveQueue s to from =
     extractComponentsGuards s
       (rev (filter (\<lambda>record. record \<notin> set (matched to)) (matched from))) beforeRouteLeave
     @ concat (map (\<lambda>record. leaveGuards (records s record)) (leavingOf to from))"

definition beforeEachQueue :: "Router \<Rightarrow> guard list" where
  "beforeEachQueue s = beforeGuards s"

definition updateQueue :: "Router \<Rightarrow> location \<Rightarrow> location \<Rightarrow> guard list" where
  "updateQueue s to from =
     extractComponentsGuards s
       (filter (\<lambda>record. record \<in> set (matched from)) (matched to)) beforeRouteUpdate
     @ concat (map (\<lambda>record. updateGuards (records s record)) (updatingOf to from))"

definition beforeEnterOf :: "Router \<Rightarrow> location \<Rightarrow> ref \<Rightarrow> guard list" where
  "beforeEnterOf s from record =
     (case beforeEnter (records s record) of
        NoBeforeEnter \<Rightarrow> []
      | SingleBeforeEnter g \<Rightarrow> (if record \<notin> set (matched from) then [g] else [])
      | ArrayBeforeEnter gs \<Rightarrow> (if record \<notin> set (matched from) then gs else []))"

definition beforeEnterQueue :: "Router \<Rightarrow> location \<Rightarrow> location \<Rightarrow> guard list" where
  "beforeEnterQueue s to from = concat (map (beforeEnterOf s from) (matched to))"

definition enterQueue :: "Router \<Rightarrow> location \<Rightarrow> location \<Rightarrow> guard list" where
  "enterQueue s to from =
     extractComponentsGuards s
       (filter (\<lambda>record. record \<notin> set (matched from)) (matched to)) beforeRouteEnter"

definition beforeResolveQueue :: "Router \<Rightarrow> guard list" where
  "beforeResolveQueue s = beforeResolveGuards s"

text \<open>
  \<^verbatim>\<open>navigate(to, from)\<close>: the leave queue is built at once, from the state of the call,
  and each later queue in its own \<^verbatim>\<open>.then\<close>.
\<close>

definition navigate :: "Env \<Rightarrow> location \<Rightarrow> location \<Rightarrow> Router \<Rightarrow> Run" where
  "navigate env to from s =
     (let r1 = runGuardQueue env (leaveQueue s to from) to from s;
          r2 = thenStage env to from r1 (\<lambda>s'. beforeEachQueue s');
          r3 = thenStage env to from r2 (\<lambda>s'. updateQueue s' to from);
          r4 = thenStage env to from r3 (\<lambda>s'. beforeEnterQueue s' to from);
          r5 = thenStage env to from r4 (\<lambda>s'. enterQueue s' to from);
          r6 = thenStage env to from r5 (\<lambda>s'. beforeResolveQueue s')
      in r6)"

section \<open>pushWithRedirect, push, replace\<close>

text \<open>
  The \<^verbatim>\<open>.catch\<close> of \<^verbatim>\<open>pushWithRedirect\<close>. It runs when the promise before it has
  been rejected: a navigation that is no longer the pending one becomes
  \<^verbatim>\<open>NAVIGATION_CANCELLED\<close>, an abort or a guard's redirect is passed on as a value, and
  anything else goes to \<^verbatim>\<open>triggerError\<close>.
\<close>

definition catchNavigation ::
  "location \<Rightarrow> location \<Rightarrow> (RouterError option) Promise \<Rightarrow> Router
     \<Rightarrow> (RouterError option) Promise \<times> Router" where
  "catchNavigation toLocation from p s =
     (case p of
        Fulfilled v \<Rightarrow> (Fulfilled v, s)
      | Pending \<Rightarrow> (Pending, s)
      | Rejected error \<Rightarrow>
          (if loc_id (pendingLocation s) \<noteq> loc_id toLocation
           then (Fulfilled (Some (NavigationFailure NAVIGATION_CANCELLED from toLocation)), s)
           else if errType error = Some NAVIGATION_ABORTED
                   \<or> errType error = Some NAVIGATION_GUARD_REDIRECT
           then (Fulfilled (Some error), s)
           else triggerError error s))"

text \<open>The value that \<^verbatim>\<open>navigate\<close> resolves with is \<^verbatim>\<open>undefined\<close>: no failure.\<close>

definition noFailure :: "unit Promise \<Rightarrow> (RouterError option) Promise" where
  "noFailure p = (case p of Fulfilled u \<Rightarrow> Fulfilled None | Rejected err \<Rightarrow> Rejected err | Pending \<Rightarrow> Pending)"

text \<open>
  A promise returned from a \<^verbatim>\<open>.then\<close> callback is adopted; a synchronous throw in the
  callback rejects the promise of the \<^verbatim>\<open>.then\<close>.
\<close>

definition adopt :: "'a Promise Call \<Rightarrow> 'a Promise" where
  "adopt c = (case c of Threw err \<Rightarrow> Rejected err | Returned p \<Rightarrow> p)"

type_synonym PushResult = "(RouterError option) Promise Call \<times> Router \<times> guard list"

text \<open>
  \<^verbatim>\<open>(failure ? Promise.resolve(failure) : navigate(toLocation, from)).catch(...)\<close>:
  a target that is the current location, unless the call forces the navigation, is a
  \<^verbatim>\<open>NAVIGATION_DUPLICATED\<close> failure and \<^verbatim>\<open>handleScroll(from, from, true, false)\<close>
  is called; otherwise the guards are run. The \<^verbatim>\<open>.catch\<close> follows in both cases.
\<close>

definition navigateOrDuplicate ::
  "Env \<Rightarrow> location \<Rightarrow> location \<Rightarrow> bool option \<Rightarrow> Router
     \<Rightarrow> (RouterError option) Promise \<times> Router \<times> guard list" where
  "navigateOrDuplicate env toLocation from force s =
     (case (if force \<noteq> Some True \<and> isSameRouteLocation env from toLocation
            then (Fulfilled (Some (NavigationFailure NAVIGATION_DUPLICATED from toLocation)),
                  handleScroll env from from True False s, [])
            else (case navigate env toLocation from s of
                    (p', s', called') \<Rightarrow> (noFailure p', s', called')))
      of (p, s3, called) \<Rightarrow>
        (case catchNavigation toLocation from p s3 of (q, s4) \<Rightarrow> (q, s4, called)))"

text \<open>
  \<^verbatim>\<open>pushWithRedirect(to, redirectedFrom)\<close>. A redirect calls the function again, and
  nothing bounds the number of redirects, so the model counts them down from a bound
  and answers \<open>None\<close> when the bound is used up. The third component of the result is
  the list of the guards called, in the order of the calls.
\<close>

fun pushWithRedirect ::
  "Env \<Rightarrow> nat \<Rightarrow> RouteLocationRaw \<Rightarrow> location option \<Rightarrow> Router \<Rightarrow> PushResult option" where
  "pushWithRedirect env 0 to redirectedFrom' s = None"
| "pushWithRedirect env (Suc n) to redirectedFrom' s =
     (case resolve env (nextLocation s) to (currentRoute s) of
        Inl err \<Rightarrow> Some (Threw err, s, [])
      | Inr targetLocation \<Rightarrow>
          (let s1 = s\<lparr>pendingLocation := targetLocation, nextLocation := Suc (nextLocation s)\<rparr>;
               from = currentRoute s1;
               data = stateOf to;
               force = forceOf to;
               replace = replaceOf to
           in case lastMatchedRedirect s1 targetLocation of
                Some redirectOption \<Rightarrow>
                  (let newTargetLocation = locationAsObject (redirectOption targetLocation) in
                   if DEV env \<and> o_path newTargetLocation = None \<and> o_name newTargetLocation = None
                   then Some (Returned (Rejected (PlainError ''Invalid redirect'')),
                              s1\<lparr>warnings := warnings s1 @ [''Invalid redirect found'']\<rparr>, [])
                   else pushWithRedirect env n
                          (RawObject (redirectTarget targetLocation newTargetLocation data force replace))
                          (Some (case redirectedFrom' of Some original \<Rightarrow> original | None \<Rightarrow> targetLocation))
                          s1)
              | None \<Rightarrow>
                  (let toLocation = setRedirectedFrom redirectedFrom' targetLocation;
                       s2 = s1\<lparr>pendingLocation := toLocation\<rparr>
                   in case navigateOrDuplicate env toLocation from force s2 of
                        (q, s4, called) \<Rightarrow>
                          (case q of
                             Pending \<Rightarrow> Some (Returned Pending, s4, called)
                           | Rejected err \<Rightarrow> Some (Returned (Rejected err), s4, called)
                           | Fulfilled None \<Rightarrow>
                               (case finalizeNavigation env toLocation from True replace data s4 of
                                  (failure, s5) \<Rightarrow>
                                    Some (Returned (Fulfilled failure),
                                          triggerAfterEach toLocation from failure s5, called))
                           | Fulfilled (Some failure) \<Rightarrow>
                               (case failure of
                                  NavigationRedirectError failureTo \<Rightarrow>
                                    (case pushWithRedirect env n
                                            (RawObject (guardRedirectTarget failureTo data force replace))
                                            (Some (case redirectedFrom' of Some original \<Rightarrow> original | None \<Rightarrow> toLocation))
                                            s4 of
                                       None \<Rightarrow> None
                                     | Some (c, s5, called') \<Rightarrow>
                                         Some (Returned (adopt c), s5, called @ called'))
                                | NavigationFailure t f l \<Rightarrow>
                                    Some (Returned (Fulfilled (Some failure)),
                                          triggerAfterEach toLocation from (Some failure) s4, called)
                                | MatcherError m \<Rightarrow>
                                    Some (Returned (Fulfilled (Some failure)),
                                          triggerAfterEach toLocation from (Some failure) s4, called)
                                | PlainError m \<Rightarrow>
                                    Some (Returned (Fulfilled (Some failure)),
                                          triggerAfterEach toLocation from (Some failure) s4, called))))))"

text \<open>\<^verbatim>\<open>function push(to) { return pushWithRedirect(to) }\<close>\<close>

definition push :: "Env \<Rightarrow> nat \<Rightarrow> RouteLocationRaw \<Rightarrow> Router \<Rightarrow> PushResult option" where
  "push env n to s = pushWithRedirect env n to None s"

text \<open>\<^verbatim>\<open>function replace(to) { return push({ ...locationAsObject(to), replace: true }) }\<close>\<close>

definition replace :: "Env \<Rightarrow> nat \<Rightarrow> RouteLocationRaw \<Rightarrow> Router \<Rightarrow> PushResult option" where
  "replace env n to s = push env n (RawObject ((locationAsObject to)\<lparr>o_replace := Some True\<rparr>)) s"

section \<open>The order of the guards, in the words of the specification\<close>

text \<open>
  The guards that a record's \<^verbatim>\<open>beforeEnter\<close> holds: none, the single callback, or
  all the callbacks of the array.
\<close>

definition beforeEnterGuards :: "RouteRecordNormalized \<Rightarrow> guard list" where
  "beforeEnterGuards record =
     (case beforeEnter record of
        NoBeforeEnter \<Rightarrow> []
      | SingleBeforeEnter g \<Rightarrow> [g]
      | ArrayBeforeEnter gs \<Rightarrow> gs)"

text \<open>
  The order that the specification mandates, written as one list: the in-component
  \<^verbatim>\<open>beforeRouteLeave\<close> guards of the leaving records from leaf to root, the
  registered \<^verbatim>\<open>leaveGuards\<close> of the leaving records, the global \<^verbatim>\<open>beforeEach\<close>
  guards in registration order, the in-component \<^verbatim>\<open>beforeRouteUpdate\<close> guards and
  the registered \<^verbatim>\<open>updateGuards\<close> of the updating records, the \<^verbatim>\<open>beforeEnter\<close>
  guards of the entering records, the in-component \<^verbatim>\<open>beforeRouteEnter\<close> guards of
  the entering records, the global \<^verbatim>\<open>beforeResolve\<close> guards. The records that are
  read through \<open>from.matched\<close> come in its order, those read through \<open>to.matched\<close> in
  the order of \<open>to.matched\<close>.
\<close>

definition guardOrder :: "Router \<Rightarrow> location \<Rightarrow> location \<Rightarrow> guard list" where
  "guardOrder s to from =
     (let leaving = filter (\<lambda>r. r \<notin> set (matched to)) (matched from);
          updatingOfFrom = filter (\<lambda>r. r \<in> set (matched to)) (matched from);
          updatingOfTo = filter (\<lambda>r. r \<in> set (matched from)) (matched to);
          entering = filter (\<lambda>r. r \<notin> set (matched from)) (matched to)
      in concat (map (\<lambda>r. componentGuards (records s r) beforeRouteLeave) (rev leaving))
         @ concat (map (\<lambda>r. leaveGuards (records s r)) leaving)
         @ beforeGuards s
         @ concat (map (\<lambda>r. componentGuards (records s r) beforeRouteUpdate) updatingOfTo)
         @ concat (map (\<lambda>r. updateGuards (records s r)) updatingOfFrom)
         @ concat (map (\<lambda>r. beforeEnterGuards (records s r)) entering)
         @ concat (map (\<lambda>r. componentGuards (records s r) beforeRouteEnter) entering)
         @ beforeResolveGuards s)"

text \<open>
  The guards that are registered in the router when a stage after the first builds its
  queue, and the condition that no guard changes them while it is awaited. The
  \<^verbatim>\<open>leaveGuards\<close> are not among them: they are read when \<^verbatim>\<open>navigate\<close> is called.
\<close>

definition guardRegistry ::
  "Router \<Rightarrow> guard list \<times> guard list
     \<times> (ref \<Rightarrow> guard list \<times> BeforeEnter \<times> (NavigationGuardKind \<Rightarrow> guard list))" where
  "guardRegistry s =
     (beforeGuards s, beforeResolveGuards s,
      (\<lambda>r. (updateGuards (records s r), beforeEnter (records s r), componentGuards (records s r))))"

definition guardsKeepRegistry :: "Env \<Rightarrow> bool" where
  "guardsKeepRegistry env =
     (\<forall>g to from s. guardRegistry (snd (guardBehaviour env g to from s)) = guardRegistry s)"

section \<open>Comparing a push with a replace\<close>

fun historyLocation :: "HistoryCall \<Rightarrow> location" where
  "historyLocation (HistoryPush l data) = l"
| "historyLocation (HistoryReplace l data) = l"

fun historyData :: "HistoryCall \<Rightarrow> HistoryState option" where
  "historyData (HistoryPush l data) = data"
| "historyData (HistoryReplace l data) = data"

text \<open>
  Two states that are the same, or that differ only in whether the last call to the
  history is a push or a replace, of the same location with the same data.
\<close>

definition differInLastHistoryCall :: "Router \<Rightarrow> Router \<Rightarrow> bool" where
  "differInLastHistoryCall s1 s2 =
     (s2 = s1
      \<or> (historyCalls s1 \<noteq> [] \<and> historyCalls s2 \<noteq> []
         \<and> butlast (historyCalls s1) = butlast (historyCalls s2)
         \<and> historyLocation (last (historyCalls s1)) = historyLocation (last (historyCalls s2))
         \<and> historyData (last (historyCalls s1)) = historyData (last (historyCalls s2))
         \<and> s2 = s1\<lparr>historyCalls := historyCalls s2\<rparr>))"

text \<open>
  Two results of \<open>pushWithRedirect\<close> that agree on the promise and on the guards
  called, and whose states differ at most in the last call to the history.
\<close>

definition samePushResult :: "PushResult option \<Rightarrow> PushResult option \<Rightarrow> bool" where
  "samePushResult r1 r2 =
     (case r1 of
        None \<Rightarrow> r2 = None
      | Some (c1, s1, called1) \<Rightarrow>
          (case r2 of
             None \<Rightarrow> False
           | Some (c2, s2, called2) \<Rightarrow>
               c1 = c2 \<and> called1 = called2 \<and> differInLastHistoryCall s1 s2))"

section \<open>A small router to run the model on\<close>

text \<open>
  A route table with static paths only. Record 1 is a layout with the children 2
  (\<open>/a/b\<close>), 3 (\<open>/a/c\<close>) and, under 2, 4 (\<open>/a/b/d\<close>); the other records are routes
  of their own. The numbers in the guard fields name the guards.
\<close>

definition plainRecord :: RouteRecordNormalized where
  "plainRecord = \<lparr>leaveGuards = [], updateGuards = [], instances = Map.empty,
                  beforeEnter = NoBeforeEnter, redirect = None, componentGuards = (\<lambda>k. [])\<rparr>"

definition demoRecords :: "ref \<Rightarrow> RouteRecordNormalized" where
  "demoRecords r =
     (if r = 1 then plainRecord\<lparr>updateGuards := [31], instances := [''default'' \<mapsto> 100],
                     componentGuards := (\<lambda>k. if k = beforeRouteUpdate then [30] else [])\<rparr>
      else if r = 2 then plainRecord\<lparr>leaveGuards := [11], updateGuards := [14], instances := [''default'' \<mapsto> 101],
                     componentGuards := (\<lambda>k. if k = beforeRouteLeave then [10] else [])\<rparr>
      else if r = 3 then plainRecord\<lparr>beforeEnter := ArrayBeforeEnter [40, 41],
                     componentGuards := (\<lambda>k. if k = beforeRouteEnter then [50] else [])\<rparr>
      else if r = 4 then plainRecord\<lparr>leaveGuards := [13], instances := [''default'' \<mapsto> 102],
                     componentGuards := (\<lambda>k. if k = beforeRouteLeave then [12] else [])\<rparr>
      else if r = 5 then plainRecord\<lparr>beforeEnter := ArrayBeforeEnter [70, 71]\<rparr>
      else if r = 7 then plainRecord\<lparr>redirect := Some (\<lambda>l. RawString ''/private'')\<rparr>
      else if r = 8 then plainRecord\<lparr>beforeEnter := SingleBeforeEnter 80\<rparr>
      else if r = 10 then plainRecord\<lparr>beforeEnter := SingleBeforeEnter 81\<rparr>
      else if r = 11 then plainRecord\<lparr>redirect := Some (\<lambda>l. RawObject (emptyObject\<lparr>o_params := Some [(''foo'', ''f'')]\<rparr>))\<rparr>
      else if r = 12 then plainRecord\<lparr>beforeEnter := SingleBeforeEnter 82\<rparr>
      else plainRecord)"

definition demoRoutes :: "(string \<times> string option \<times> ref list) list" where
  "demoRoutes =
     [(''/a/b'', None, [1, 2]),
      (''/a/c'', None, [1, 3]),
      (''/a/b/d'', None, [1, 2, 4]),
      (''/x'', None, [5]),
      (''/y'', None, [6]),
      (''/old'', None, [7]),
      (''/private'', None, [8]),
      (''/login'', Some ''login'', [9]),
      (''/boom'', None, [10]),
      (''/redirect'', None, [11]),
      (''/closed'', None, [12])]"

text \<open>
  Modelled from the spec: the matcher (the matcher module is not among the sources).
  A named target is looked up by name and fails with \<^verbatim>\<open>MATCHER_NOT_FOUND\<close> when no
  record has the name; a path is matched against the records in order and the first
  match wins, a path that matches nothing giving an empty chain; a target with neither
  stays on the current path.
\<close>

definition demoMatcher :: "MatcherLocationRaw \<Rightarrow> location \<Rightarrow> RouterError + MatcherLocation" where
  "demoMatcher ml currentLocation =
     (case m_name ml of
        Some n \<Rightarrow>
          (case find (\<lambda>(p, nm, ms). nm = Some n) demoRoutes of
             Some (p, nm, ms) \<Rightarrow>
               Inr \<lparr>ml_name = nm, ml_path = p,
                    ml_params = (case m_params ml of None \<Rightarrow> [] | Some ps \<Rightarrow> ps), ml_matched = ms\<rparr>
           | None \<Rightarrow> Inl (MatcherError n))
      | None \<Rightarrow>
          (let p = (case m_path ml of Some p \<Rightarrow> p | None \<Rightarrow> path currentLocation) in
           case find (\<lambda>(p', nm, ms). p' = p) demoRoutes of
             Some (p', nm, ms) \<Rightarrow> Inr \<lparr>ml_name = nm, ml_path = p, ml_params = [], ml_matched = ms\<rparr>
           | None \<Rightarrow> Inr \<lparr>ml_name = None, ml_path = p, ml_params = [], ml_matched = []\<rparr>))"

text \<open>
  A URL is cut at the first \<open>?\<close> or \<open>#\<close> into its path and the rest, and the rest at
  the first \<open>#\<close> into the search string, kept as one key, and the hash.
\<close>

definition demoParseURL :: "string \<Rightarrow> string \<Rightarrow> URL" where
  "demoParseURL str currentPath =
     (let p = takeWhile (\<lambda>c. c \<noteq> CHR ''?'' \<and> c \<noteq> CHR ''#'') str;
          rest = dropWhile (\<lambda>c. c \<noteq> CHR ''?'' \<and> c \<noteq> CHR ''#'') str;
          search = takeWhile (\<lambda>c. c \<noteq> CHR ''#'') rest;
          h = dropWhile (\<lambda>c. c \<noteq> CHR ''#'') rest
      in \<lparr>url_fullPath = str, url_path = p,
          url_query = (if search = [] then [] else [(tl search, [])]),
          url_hash = h\<rparr>)"

definition demoStringifyURL :: "query option \<Rightarrow> string \<Rightarrow> string \<Rightarrow> string" where
  "demoStringifyURL q h p =
     p @ (case q of None \<Rightarrow> [] | Some [] \<Rightarrow> []
          | Some (kv # kvs) \<Rightarrow> CHR ''?'' # concat (map (\<lambda>(k, v). k @ v) (kv # kvs))) @ h"

text \<open>
  Modelled from the spec: \<^verbatim>\<open>isSameRouteLocation\<close> (the location module is not among
  the sources): the same matched leaf, the same params, the same query, the same hash.
\<close>

definition demoIsSameRouteLocation :: "location \<Rightarrow> location \<Rightarrow> bool" where
  "demoIsSameRouteLocation a b =
     (matched a \<noteq> [] \<and> matched b \<noteq> [] \<and> last (matched a) = last (matched b)
      \<and> params a = params b \<and> query a = query b \<and> hash a = hash b)"

text \<open>An environment whose guards all accept and leave the router alone.\<close>

definition quietEnv :: Env where
  "quietEnv =
     \<lparr>DEV = True, isBrowser = True, hasScrollBehavior = True,
      guardBehaviour = (\<lambda>g to from s. (Next, s)),
      matcherResolve = demoMatcher,
      parseURL = demoParseURL,
      stringifyURL = demoStringifyURL,
      encodeHash = (\<lambda>h. h),
      normalizeQuery = (\<lambda>q. case q of None \<Rightarrow> [] | Some kvs \<Rightarrow> kvs),
      encodeParams = (\<lambda>ps. ps),
      decodeParams = (\<lambda>ps. ps),
      normalizeParams = (\<lambda>ps. ps),
      isSameRouteLocation = demoIsSameRouteLocation\<rparr>"

text \<open>
  The guards of the demonstration. While guard 70 is awaited the application pushes
  \<open>/y\<close>, and that navigation runs to its end before guard 70 answers. Guard 80
  redirects to the route named \<open>login\<close>, guard 81 throws, guard 82 answers
  \<^verbatim>\<open>false\<close>; every other guard accepts.
\<close>

definition demoBehaviour :: "guard \<Rightarrow> location \<Rightarrow> location \<Rightarrow> Router \<Rightarrow> GuardOutcome \<times> Router" where
  "demoBehaviour g to from s =
     (if g = 70 then
        (case push quietEnv 2 (RawString ''/y'') s of
           Some (c, s', called) \<Rightarrow> (Next, s')
         | None \<Rightarrow> (NeverSettles, s))
      else if g = 80 then (NextLocation (RawObject (emptyObject\<lparr>o_name := Some ''login''\<rparr>)), s)
      else if g = 81 then (NextError ''boom'', s)
      else if g = 82 then (NextFalse, s)
      else (Next, s))"

definition demoEnv :: Env where
  "demoEnv = quietEnv\<lparr>guardBehaviour := demoBehaviour\<rparr>"


text \<open>A router on the start location, and one whose current route is \<open>/a/b/d\<close>.\<close>

definition startRouter :: Router where
  "startRouter =
     \<lparr>currentRoute = START_LOCATION_NORMALIZED, pendingLocation = START_LOCATION_NORMALIZED,
      nextLocation = 1, records = demoRecords,
      beforeGuards = [20, 21], beforeResolveGuards = [60],
      afterGuards = [90], afterEachCalls = [],
      errorHandlers = [95, 96], errorHandlerCalls = [],
      ready = False, readyHandlers = [], readySettled = [], nextPromise = 0,
      historyCalls = [], scrollCalls = [], warnings = []\<rparr>"

definition locABD :: location where
  "locABD = Location 1 ''/a/b/d'' ''/a/b/d'' None [] [] [] [1, 2, 4] None"

definition routerABD :: Router where
  "routerABD = startRouter\<lparr>currentRoute := locABD, pendingLocation := locABD,
                  nextLocation := 2, ready := True\<rparr>"

section \<open>Properties of the changing-record computation\<close>

lemma fromLoop_filter:
  "fromLoop toM rs (ls, us) =
     (ls @ filter (\<lambda>r. r \<notin> set toM) rs, us @ filter (\<lambda>r. r \<in> set toM) rs)"
  by (induction rs arbitrary: ls us) auto

lemma toLoop_filter:
  "toLoop fromM rs es = es @ filter (\<lambda>r. r \<notin> set fromM) rs"
  by (induction rs arbitrary: es) auto

lemma leavingOf_filter:
  "leavingOf to from = filter (\<lambda>r. r \<notin> set (matched to)) (matched from)"
  by (simp add: leavingOf_def extractChangingRecords_def fromLoop_filter)

lemma updatingOf_filter:
  "updatingOf to from = filter (\<lambda>r. r \<in> set (matched to)) (matched from)"
  by (simp add: updatingOf_def extractChangingRecords_def fromLoop_filter)

lemma enteringOf_filter:
  "enteringOf to from = filter (\<lambda>r. r \<notin> set (matched from)) (matched to)"
  by (simp add: enteringOf_def extractChangingRecords_def fromLoop_filter toLoop_filter)

text \<open>
  Claim C4, as stated: the leaving records come back in reverse (leaf-to-root) order.
  With \<open>from.matched = [1, 2]\<close> and an empty \<open>to.matched\<close> the function returns
  \<open>[1, 2]\<close>, the order of \<open>from.matched\<close>, and not \<open>[2, 1]\<close>.
\<close>

theorem C4_leaving_reversed_counterexample:
  "leavingOf (mkLoc 2 ''/'' []) (mkLoc 1 ''/a/b'' [1, 2]) = [1, 2] \<and>
   leavingOf (mkLoc 2 ''/'' []) (mkLoc 1 ''/a/b'' [1, 2])
     \<noteq> rev (filter (\<lambda>r. r \<notin> set (matched (mkLoc 2 ''/'' []))) (matched (mkLoc 1 ''/a/b'' [1, 2])))"
  by (simp add: leavingOf_filter mkLoc_def)

text \<open>
  Claim C4, amended: \<open>extractChangingRecords\<close> returns the leaving records (those of
  \<open>from.matched\<close> that are not in \<open>to.matched\<close>) in the root-to-leaf order of
  \<open>from.matched\<close>, the updating records (those in both chains) in the order of
  \<open>from.matched\<close>, and the entering records (those of \<open>to.matched\<close> that are not in
  \<open>from.matched\<close>) in the root-to-leaf order of \<open>to.matched\<close>; as sets the three are
  pairwise disjoint and their union is the union of the two chains. The leaf-to-root
  order is that of the list which \<open>navigate\<close> hands to \<open>extractComponentsGuards\<close> for
  \<open>beforeRouteLeave\<close>: the leaving records reversed; the registered \<open>leaveGuards\<close>
  follow in the order of the leaving records as returned.
\<close>

theorem C4_extractChangingRecords:
  "extractChangingRecords to from =
     (filter (\<lambda>r. r \<notin> set (matched to)) (matched from),
      filter (\<lambda>r. r \<in> set (matched to)) (matched from),
      filter (\<lambda>r. r \<notin> set (matched from)) (matched to))
   \<and> set (leavingOf to from) \<union> set (updatingOf to from) \<union> set (enteringOf to from)
       = set (matched from) \<union> set (matched to)
   \<and> set (leavingOf to from) \<inter> set (updatingOf to from) = {}
   \<and> set (leavingOf to from) \<inter> set (enteringOf to from) = {}
   \<and> set (updatingOf to from) \<inter> set (enteringOf to from) = {}
   \<and> leaveQueue s to from =
       extractComponentsGuards s (rev (leavingOf to from)) beforeRouteLeave
       @ concat (map (\<lambda>record. leaveGuards (records s record)) (leavingOf to from))"
proof -
  have shape: "extractChangingRecords to from =
     (filter (\<lambda>r. r \<notin> set (matched to)) (matched from),
      filter (\<lambda>r. r \<in> set (matched to)) (matched from),
      filter (\<lambda>r. r \<notin> set (matched from)) (matched to))"
    by (simp add: extractChangingRecords_def fromLoop_filter toLoop_filter)
  have cover: "set (leavingOf to from) \<union> set (updatingOf to from) \<union> set (enteringOf to from)
       = set (matched from) \<union> set (matched to)"
    unfolding leavingOf_filter updatingOf_filter enteringOf_filter by auto
  have d1: "set (leavingOf to from) \<inter> set (updatingOf to from) = {}"
    unfolding leavingOf_filter updatingOf_filter by auto
  have d2: "set (leavingOf to from) \<inter> set (enteringOf to from) = {}"
    unfolding leavingOf_filter enteringOf_filter by auto
  have d3: "set (updatingOf to from) \<inter> set (enteringOf to from) = {}"
    unfolding updatingOf_filter enteringOf_filter by auto
  have lq: "leaveQueue s to from =
       extractComponentsGuards s (rev (leavingOf to from)) beforeRouteLeave
       @ concat (map (\<lambda>record. leaveGuards (records s record)) (leavingOf to from))"
    by (simp add: leaveQueue_def leavingOf_filter)
  from shape cover d1 d2 d3 lq show ?thesis by blast
qed

theorem C4_extractChangingRecords_witness:
  "extractChangingRecords (mkLoc 2 ''/a/c'' [1, 3]) (mkLoc 1 ''/a/b'' [1, 2]) = ([2], [1], [3])"
  using C4_extractChangingRecords [of "mkLoc 2 ''/a/c'' [1, 3]" "mkLoc 1 ''/a/b'' [1, 2]"]
  by (simp add: mkLoc_def)

section \<open>Unfolding pushWithRedirect\<close>

lemma setRedirectedFrom_simps [simp]:
  "loc_id (setRedirectedFrom rf l) = loc_id l"
  "matched (setRedirectedFrom rf l) = matched l"
  "redirectedFrom (setRedirectedFrom rf l) = rf"
  "path (setRedirectedFrom rf l) = path l"
  by (cases l; simp add: setRedirectedFrom_def)+

lemma lastMatchedRedirect_pending [simp]:
  "lastMatchedRedirect (s\<lparr>pendingLocation := a, nextLocation := b\<rparr>) t = lastMatchedRedirect s t"
  by (simp add: lastMatchedRedirect_def split: list.split)

lemma pushWithRedirect_throws:
  assumes "resolve env (nextLocation s) to (currentRoute s) = Inl err"
  shows "pushWithRedirect env (Suc n) to rf s = Some (Threw err, s, [])"
  using assms by simp



lemma pushWithRedirect_attempt:
  assumes "resolve env (nextLocation s) to (currentRoute s) = Inr targetLocation"
    and "lastMatchedRedirect s targetLocation = None"
    and "navigateOrDuplicate env (setRedirectedFrom rf targetLocation) (currentRoute s) (forceOf to)
           (s\<lparr>nextLocation := Suc (nextLocation s), pendingLocation := setRedirectedFrom rf targetLocation\<rparr>)
         = (q, s4, called)"
  shows "pushWithRedirect env (Suc n) to rf s =
     (case q of
        Pending \<Rightarrow> Some (Returned Pending, s4, called)
      | Rejected err \<Rightarrow> Some (Returned (Rejected err), s4, called)
      | Fulfilled None \<Rightarrow>
          (case finalizeNavigation env (setRedirectedFrom rf targetLocation) (currentRoute s) True (replaceOf to) (stateOf to) s4 of
             (failure, s5) \<Rightarrow>
               Some (Returned (Fulfilled failure),
                     triggerAfterEach (setRedirectedFrom rf targetLocation) (currentRoute s) failure s5, called))
      | Fulfilled (Some failure) \<Rightarrow>
          (case failure of
             NavigationRedirectError failureTo \<Rightarrow>
               (case pushWithRedirect env n
                       (RawObject (guardRedirectTarget failureTo (stateOf to) (forceOf to) (replaceOf to)))
                       (Some (case rf of Some original \<Rightarrow> original | None \<Rightarrow> setRedirectedFrom rf targetLocation))
                       s4 of
                  None \<Rightarrow> None
                | Some (c, s5, called') \<Rightarrow> Some (Returned (adopt c), s5, called @ called'))
           | _ \<Rightarrow> Some (Returned (Fulfilled (Some failure)),
                        triggerAfterEach (setRedirectedFrom rf targetLocation) (currentRoute s) (Some failure) s4, called)))"
  using assms by (simp add: Let_def split: Promise.split option.split RouterError.split)

declare pushWithRedirect.simps [simp del]

section \<open>Finalization and the record store\<close>

lemma fold_clearLeaving:
  "fold clearLeaving rs s =
     s\<lparr>records := (\<lambda>r. if r \<in> set rs
                          then (records s r)\<lparr>leaveGuards := [], instances := Map.empty\<rparr>
                          else records s r)\<rparr>"
proof (induction rs arbitrary: s)
  case Nil
  show ?case by simp
next
  case (Cons x xs)
  have "fold clearLeaving (x # xs) s = fold clearLeaving xs (clearLeaving x s)"
    by simp
  also have "\<dots> = (clearLeaving x s)\<lparr>records := (\<lambda>r. if r \<in> set xs
                          then (records (clearLeaving x s) r)\<lparr>leaveGuards := [], instances := Map.empty\<rparr>
                          else records (clearLeaving x s) r)\<rparr>"
    by (rule Cons.IH)
  also have "\<dots> = s\<lparr>records := (\<lambda>r. if r \<in> set (x # xs)
                          then (records s r)\<lparr>leaveGuards := [], instances := Map.empty\<rparr>
                          else records s r)\<rparr>"
    unfolding clearLeaving_def by (simp add: fun_eq_iff)
  finally show ?case .
qed

lemma markAsReady_fields [simp]:
  "records (markAsReady err s) = records s"
  "currentRoute (markAsReady err s) = currentRoute s"
  "pendingLocation (markAsReady err s) = pendingLocation s"
  "historyCalls (markAsReady err s) = historyCalls s"
  "errorHandlers (markAsReady err s) = errorHandlers s"
  "errorHandlerCalls (markAsReady err s) = errorHandlerCalls s"
  "afterGuards (markAsReady err s) = afterGuards s"
  "afterEachCalls (markAsReady err s) = afterEachCalls s"
  "beforeGuards (markAsReady err s) = beforeGuards s"
  "beforeResolveGuards (markAsReady err s) = beforeResolveGuards s"
  "scrollCalls (markAsReady err s) = scrollCalls s"
  by (simp_all add: markAsReady_def)

lemma handleScroll_fields [simp]:
  "records (handleScroll env to from isPush isFirst s) = records s"
  "currentRoute (handleScroll env to from isPush isFirst s) = currentRoute s"
  "pendingLocation (handleScroll env to from isPush isFirst s) = pendingLocation s"
  "historyCalls (handleScroll env to from isPush isFirst s) = historyCalls s"
  "errorHandlers (handleScroll env to from isPush isFirst s) = errorHandlers s"
  "errorHandlerCalls (handleScroll env to from isPush isFirst s) = errorHandlerCalls s"
  "ready (handleScroll env to from isPush isFirst s) = ready s"
  "readyHandlers (handleScroll env to from isPush isFirst s) = readyHandlers s"
  "readySettled (handleScroll env to from isPush isFirst s) = readySettled s"
  "afterGuards (handleScroll env to from isPush isFirst s) = afterGuards s"
  "afterEachCalls (handleScroll env to from isPush isFirst s) = afterEachCalls s"
  by (simp_all add: handleScroll_def)

lemma triggerAfterEach_fields [simp]:
  "records (triggerAfterEach to from failure s) = records s"
  "currentRoute (triggerAfterEach to from failure s) = currentRoute s"
  "pendingLocation (triggerAfterEach to from failure s) = pendingLocation s"
  "historyCalls (triggerAfterEach to from failure s) = historyCalls s"
  "errorHandlers (triggerAfterEach to from failure s) = errorHandlers s"
  "errorHandlerCalls (triggerAfterEach to from failure s) = errorHandlerCalls s"
  "ready (triggerAfterEach to from failure s) = ready s"
  "readyHandlers (triggerAfterEach to from failure s) = readyHandlers s"
  "readySettled (triggerAfterEach to from failure s) = readySettled s"
  "scrollCalls (triggerAfterEach to from failure s) = scrollCalls s"
  by (simp_all add: triggerAfterEach_def)

lemma finalizeNavigation_cancelled:
  "loc_id (pendingLocation s) \<noteq> loc_id toLocation \<Longrightarrow>
   finalizeNavigation env toLocation from isPush rep data s =
     (Some (NavigationFailure NAVIGATION_CANCELLED from toLocation), s)"
  by (simp add: finalizeNavigation_def)

lemma finalizeNavigation_commit:
  assumes "loc_id (pendingLocation s) = loc_id toLocation"
  shows "fst (finalizeNavigation env toLocation from isPush rep data s) = None"
    and "currentRoute (snd (finalizeNavigation env toLocation from isPush rep data s)) = toLocation"
    and "records (snd (finalizeNavigation env toLocation from isPush rep data s)) =
           (\<lambda>r. if r \<in> set (leavingOf toLocation from)
                then (records s r)\<lparr>leaveGuards := [], instances := Map.empty\<rparr>
                else records s r)"
    and "pendingLocation (snd (finalizeNavigation env toLocation from isPush rep data s)) = pendingLocation s"
    and "ready (snd (finalizeNavigation env toLocation from isPush rep data s))"
  using assms by (simp_all add: finalizeNavigation_def Let_def fold_clearLeaving markAsReady_def)




section \<open>The ready state\<close>



lemma triggerError_fields [simp]:
  "fst (triggerError error s) = Rejected error"
  "records (snd (triggerError error s)) = records s"
  "currentRoute (snd (triggerError error s)) = currentRoute s"
  "pendingLocation (snd (triggerError error s)) = pendingLocation s"
  "historyCalls (snd (triggerError error s)) = historyCalls s"
  "errorHandlers (snd (triggerError error s)) = errorHandlers s"
  "errorHandlerCalls (snd (triggerError error s)) =
     errorHandlerCalls s @ map (\<lambda>h. (h, error)) (errorHandlers s)"
  "ready (snd (triggerError error s))"
  "afterEachCalls (snd (triggerError error s)) = afterEachCalls s"
  by (simp_all add: triggerError_def Let_def markAsReady_def)





section \<open>Duplicated navigation\<close>

lemma catchNavigation_Fulfilled [simp]:
  "catchNavigation toLocation from (Fulfilled v) s = (Fulfilled v, s)"
  by (simp add: catchNavigation_def)

lemma catchNavigation_Pending [simp]:
  "catchNavigation toLocation from Pending s = (Pending, s)"
  by (simp add: catchNavigation_def)

lemma navigateOrDuplicate_duplicate:
  assumes "force \<noteq> Some True" and "isSameRouteLocation env from toLocation"
  shows "navigateOrDuplicate env toLocation from force s =
           (Fulfilled (Some (NavigationFailure NAVIGATION_DUPLICATED from toLocation)),
            handleScroll env from from True False s, [])"
  using assms by (simp add: navigateOrDuplicate_def)

text \<open>
  Claim C3: when the target that \<open>to\<close> resolves to has no redirect on its last
  matched record, the call does not force the navigation, and the target is the same
  route location as the current one, \<open>pushWithRedirect\<close> (which \<open>push\<close> and, through
  it, \<open>replace\<close> call) answers with a promise resolved with a
  \<open>NAVIGATION_DUPLICATED\<close> failure; no guard is called; the state is the one of the
  call with the target as pending location, the scroll request
  \<open>handleScroll(from, from, true, false)\<close> and the after hooks added, so that the
  current route, the calls to the history and the records are those of before.
\<close>

theorem C3_duplicated_navigation:
  assumes "resolve env (nextLocation s) to (currentRoute s) = Inr targetLocation"
    and "lastMatchedRedirect s targetLocation = None"
    and "forceOf to \<noteq> Some True"
    and "isSameRouteLocation env (currentRoute s) (setRedirectedFrom rf targetLocation)"
  shows "pushWithRedirect env (Suc n) to rf s =
           Some (Returned (Fulfilled (Some (NavigationFailure NAVIGATION_DUPLICATED
                                              (currentRoute s) (setRedirectedFrom rf targetLocation)))),
                 triggerAfterEach (setRedirectedFrom rf targetLocation) (currentRoute s)
                   (Some (NavigationFailure NAVIGATION_DUPLICATED
                            (currentRoute s) (setRedirectedFrom rf targetLocation)))
                   (handleScroll env (currentRoute s) (currentRoute s) True False
                      (s\<lparr>nextLocation := Suc (nextLocation s),
                         pendingLocation := setRedirectedFrom rf targetLocation\<rparr>)),
                 [])
       \<and> (\<forall>c s' called. pushWithRedirect env (Suc n) to rf s = Some (c, s', called) \<longrightarrow>
             called = [] \<and> currentRoute s' = currentRoute s \<and> historyCalls s' = historyCalls s
             \<and> records s' = records s
             \<and> scrollCalls s' =
                 (if \<not> isBrowser env \<or> \<not> hasScrollBehavior env then scrollCalls s
                  else scrollCalls s @ [(currentRoute s, currentRoute s, True, False)]))"
proof -
  let ?to = "setRedirectedFrom rf targetLocation"
  let ?s2 = "s\<lparr>nextLocation := Suc (nextLocation s), pendingLocation := ?to\<rparr>"
  have nd: "navigateOrDuplicate env ?to (currentRoute s) (forceOf to) ?s2 =
              (Fulfilled (Some (NavigationFailure NAVIGATION_DUPLICATED (currentRoute s) ?to)),
               handleScroll env (currentRoute s) (currentRoute s) True False ?s2, [])"
    using assms(3,4) by (rule navigateOrDuplicate_duplicate)
  have eq: "pushWithRedirect env (Suc n) to rf s =
           Some (Returned (Fulfilled (Some (NavigationFailure NAVIGATION_DUPLICATED (currentRoute s) ?to))),
                 triggerAfterEach ?to (currentRoute s)
                   (Some (NavigationFailure NAVIGATION_DUPLICATED (currentRoute s) ?to))
                   (handleScroll env (currentRoute s) (currentRoute s) True False ?s2),
                 [])"
    by (subst pushWithRedirect_attempt [OF assms(1,2) nd]) simp
  show ?thesis
    unfolding eq by (simp add: handleScroll_def triggerAfterEach_def)
qed

theorem C3_duplicated_navigation_witness:
  "push demoEnv (Suc 0) (RawString ''/a/b/d'') routerABD =
     Some (Returned (Fulfilled (Some (NavigationFailure NAVIGATION_DUPLICATED locABD
                                        (Location 2 ''/a/b/d'' ''/a/b/d'' None [] [] [] [1, 2, 4] None)))),
           triggerAfterEach (Location 2 ''/a/b/d'' ''/a/b/d'' None [] [] [] [1, 2, 4] None) locABD
             (Some (NavigationFailure NAVIGATION_DUPLICATED locABD
                      (Location 2 ''/a/b/d'' ''/a/b/d'' None [] [] [] [1, 2, 4] None)))
             (handleScroll demoEnv locABD locABD True False
                (routerABD\<lparr>nextLocation := 3,
                   pendingLocation := Location 2 ''/a/b/d'' ''/a/b/d'' None [] [] [] [1, 2, 4] None\<rparr>)),
           [])"
proof -
  have r: "resolve demoEnv (nextLocation routerABD) (RawString ''/a/b/d'') (currentRoute routerABD)
             = Inr (Location 2 ''/a/b/d'' ''/a/b/d'' None [] [] [] [1, 2, 4] None)"
    by (simp add: resolve_def demoEnv_def quietEnv_def routerABD_def startRouter_def locABD_def
          demoParseURL_def demoMatcher_def demoRoutes_def Let_def)
  have l: "lastMatchedRedirect routerABD (Location 2 ''/a/b/d'' ''/a/b/d'' None [] [] [] [1, 2, 4] None) = None"
    by (simp add: lastMatchedRedirect_def routerABD_def startRouter_def demoRecords_def plainRecord_def)
  have f: "forceOf (RawString ''/a/b/d'') \<noteq> Some True"
    by (simp add: forceOf_def)
  have d: "isSameRouteLocation demoEnv (currentRoute routerABD)
             (setRedirectedFrom None (Location 2 ''/a/b/d'' ''/a/b/d'' None [] [] [] [1, 2, 4] None))"
    by (simp add: demoEnv_def quietEnv_def demoIsSameRouteLocation_def routerABD_def locABD_def
          setRedirectedFrom_def)
  show ?thesis
    using C3_duplicated_navigation [OF r l f d, of 0]
    by (simp add: push_def routerABD_def locABD_def setRedirectedFrom_def)
qed

section \<open>Invalid redirects\<close>





section \<open>Guard queues\<close>

lemma thenGuard_stuck:
  "p \<noteq> Fulfilled () \<Longrightarrow> thenGuard env to from (p, s, called) g = (p, s, called)"
  by (cases p) (simp_all add: thenGuard_def)

lemma foldl_thenGuard_stuck:
  "p \<noteq> Fulfilled () \<Longrightarrow> foldl (thenGuard env to from) (p, s, called) gs = (p, s, called)"
  by (induction gs) (simp_all add: thenGuard_stuck)

lemma foldl_thenGuard_called:
  "foldl (thenGuard env to from) (Fulfilled (), s, called) gs =
     (case foldl (thenGuard env to from) (Fulfilled (), s, []) gs of
        (p, s', called') \<Rightarrow> (p, s', called @ called'))"
proof (induction gs arbitrary: s called)
  case Nil
  show ?case by simp
next
  case (Cons g gs)
  obtain p' s' where step: "guardToPromiseFn env g to from s = (p', s')"
    by (cases "guardToPromiseFn env g to from s")
  show ?case
  proof (cases "p' = Fulfilled ()")
    case True
    have "foldl (thenGuard env to from) (Fulfilled (), s, called) (g # gs)
            = foldl (thenGuard env to from) (Fulfilled (), s', called @ [g]) gs"
      using step True by (simp add: thenGuard_def)
    moreover have "foldl (thenGuard env to from) (Fulfilled (), s, []) (g # gs)
            = foldl (thenGuard env to from) (Fulfilled (), s', [g]) gs"
      using step True by (simp add: thenGuard_def)
    ultimately show ?thesis
      using Cons.IH [of s' "called @ [g]"] Cons.IH [of s' "[g]"]
      by (simp split: prod.split)
  next
    case False
    have "foldl (thenGuard env to from) (Fulfilled (), s, called) (g # gs)
            = (p', s', called @ [g])"
      using step False by (simp add: thenGuard_def foldl_thenGuard_stuck)
    moreover have "foldl (thenGuard env to from) (Fulfilled (), s, []) (g # gs)
            = (p', s', [g])"
      using step False by (simp add: thenGuard_def foldl_thenGuard_stuck)
    ultimately show ?thesis by simp
  qed
qed

lemma runGuardQueue_Nil: "runGuardQueue env [] to from s = (Fulfilled (), s, [])"
  by (simp add: runGuardQueue_def)

lemma runGuardQueue_Cons:
  "runGuardQueue env (g # gs) to from s =
     (case guardToPromiseFn env g to from s of
        (p, s') \<Rightarrow>
          (case p of
             Fulfilled u \<Rightarrow>
               (case runGuardQueue env gs to from s' of
                  (p', s'', called) \<Rightarrow> (p', s'', g # called))
           | Rejected err \<Rightarrow> (Rejected err, s', [g])
           | Pending \<Rightarrow> (Pending, s', [g])))"
proof -
  obtain p' s' where step: "guardToPromiseFn env g to from s = (p', s')"
    by (cases "guardToPromiseFn env g to from s")
  show ?thesis
  proof (cases p')
    case (Fulfilled u)
    have "runGuardQueue env (g # gs) to from s
            = foldl (thenGuard env to from) (Fulfilled (), s', [g]) gs"
      using step Fulfilled by (simp add: runGuardQueue_def thenGuard_def)
    then show ?thesis
      using step Fulfilled foldl_thenGuard_called [of env "to" "from" s' "[g]" gs]
      by (simp add: runGuardQueue_def split: prod.split)
  next
    case (Rejected err)
    then show ?thesis
      using step by (simp add: runGuardQueue_def thenGuard_def foldl_thenGuard_stuck)
  next
    case Pending
    then show ?thesis
      using step by (simp add: runGuardQueue_def thenGuard_def foldl_thenGuard_stuck)
  qed
qed

lemma thenStage_Nil_stage:
  "thenStage env to from (p, s, called) (\<lambda>s'. []) = (p, s, called)"
  by (cases p) (simp_all add: thenStage_def runGuardQueue_Nil)

lemma runGuardQueue_append:
  "runGuardQueue env (xs @ ys) to from s =
     thenStage env to from (runGuardQueue env xs to from s) (\<lambda>s'. ys)"
proof (induction xs arbitrary: s)
  case Nil
  show ?case
    by (simp add: runGuardQueue_Nil thenStage_def split: prod.split)
next
  case (Cons g xs)
  obtain p' s' where step: "guardToPromiseFn env g to from s = (p', s')"
    by (cases "guardToPromiseFn env g to from s")
  show ?case
  proof (cases p')
    case (Fulfilled u)
    obtain p1 s1 c1 where r1: "runGuardQueue env xs to from s' = (p1, s1, c1)"
      by (cases "runGuardQueue env xs to from s'") auto
    show ?thesis
      using step Fulfilled r1 Cons.IH [of s']
      by (cases p1) (simp_all add: runGuardQueue_Cons thenStage_def split: prod.split)
  next
    case (Rejected err)
    then show ?thesis
      using step by (simp add: runGuardQueue_Cons thenStage_def)
  next
    case Pending
    then show ?thesis
      using step by (simp add: runGuardQueue_Cons thenStage_def)
  qed
qed

lemma guardToPromiseFn_state:
  "snd (guardToPromiseFn env g to from s) = snd (guardBehaviour env g to from s)"
  by (simp add: guardToPromiseFn_def split: prod.split GuardOutcome.split)

lemma runGuardQueue_registry:
  assumes "guardsKeepRegistry env"
  shows "guardRegistry (fst (snd (runGuardQueue env gs to from s))) = guardRegistry s"
proof (induction gs arbitrary: s)
  case Nil
  show ?case by (simp add: runGuardQueue_Nil)
next
  case (Cons g gs)
  obtain p' s' where step: "guardToPromiseFn env g to from s = (p', s')"
    by (cases "guardToPromiseFn env g to from s")
  have keep: "guardRegistry s' = guardRegistry s"
    using assms guardToPromiseFn_state [of env g "to" "from" s] step
    by (simp add: guardsKeepRegistry_def)
  obtain p1 s1 c1 where r1: "runGuardQueue env gs to from s' = (p1, s1, c1)"
    by (cases "runGuardQueue env gs to from s'") auto
  have "guardRegistry s1 = guardRegistry s"
    using Cons.IH [of s'] r1 keep by simp
  then show ?case
    using step keep r1
    by (cases p') (simp_all add: runGuardQueue_Cons)
qed

lemma thenStage_registry:
  assumes "guardsKeepRegistry env"
    and "guardRegistry (fst (snd run)) = guardRegistry s0"
  shows "guardRegistry (fst (snd (thenStage env to from run mk))) = guardRegistry s0"
proof -
  obtain p s called where run: "run = (p, s, called)"
    by (cases run) auto
  obtain p1 s1 c1 where r1: "runGuardQueue env (mk s) to from s = (p1, s1, c1)"
    by (cases "runGuardQueue env (mk s) to from s") auto
  have "guardRegistry s1 = guardRegistry s"
    using runGuardQueue_registry [OF assms(1), of "mk s" "to" "from" s] r1 by simp
  then show ?thesis
    using assms(2) run r1 by (cases p) (simp_all add: thenStage_def)
qed

lemma thenStage_fixed:
  assumes "guardRegistry (fst (snd run)) = guardRegistry s0"
    and "\<And>s. guardRegistry s = guardRegistry s0 \<Longrightarrow> mk s = mk s0"
  shows "thenStage env to from run mk = thenStage env to from run (\<lambda>s'. mk s0)"
proof -
  obtain p s called where run: "run = (p, s, called)"
    by (cases run) auto
  have "mk s = mk s0"
    using assms(1) run by (intro assms(2)) simp
  then show ?thesis
    using run by (cases p) (simp_all add: thenStage_def)
qed

lemma queues_registry:
  assumes "guardRegistry s = guardRegistry s0"
  shows "beforeEachQueue s = beforeEachQueue s0"
    and "updateQueue s to from = updateQueue s0 to from"
    and "beforeEnterQueue s to from = beforeEnterQueue s0 to from"
    and "enterQueue s to from = enterQueue s0 to from"
    and "beforeResolveQueue s = beforeResolveQueue s0"
proof -
  have g: "beforeGuards s = beforeGuards s0" "beforeResolveGuards s = beforeResolveGuards s0"
    using assms by (simp_all add: guardRegistry_def)
  have r: "updateGuards (records s r) = updateGuards (records s0 r)"
          "beforeEnter (records s r) = beforeEnter (records s0 r)"
          "componentGuards (records s r) = componentGuards (records s0 r)" for r
    using assms by (simp_all add: guardRegistry_def fun_eq_iff)
  show "beforeEachQueue s = beforeEachQueue s0"
    by (simp add: beforeEachQueue_def g)
  show "updateQueue s to from = updateQueue s0 to from"
    by (simp add: updateQueue_def extractComponentsGuards_def r)
  show "beforeEnterQueue s to from = beforeEnterQueue s0 to from"
    by (simp add: beforeEnterQueue_def beforeEnterOf_def [abs_def] r)
  show "enterQueue s to from = enterQueue s0 to from"
    by (simp add: enterQueue_def extractComponentsGuards_def r)
  show "beforeResolveQueue s = beforeResolveQueue s0"
    by (simp add: beforeResolveQueue_def g)
qed

lemma beforeEnterOf_entering:
  "beforeEnterOf s from r =
     (if r \<notin> set (matched from) then beforeEnterGuards (records s r) else [])"
  by (simp add: beforeEnterOf_def beforeEnterGuards_def split: BeforeEnter.split)

lemma concat_map_if_filter:
  "concat (map (\<lambda>x. if P x then f x else []) xs) = concat (map f (filter P xs))"
  by (induction xs) simp_all

lemma beforeEnterQueue_entering:
  "beforeEnterQueue s to from =
     concat (map (\<lambda>r. beforeEnterGuards (records s r))
               (filter (\<lambda>r. r \<notin> set (matched from)) (matched to)))"
  by (simp add: beforeEnterQueue_def beforeEnterOf_entering [abs_def] concat_map_if_filter)

lemma guardOrder_queues:
  "guardOrder s to from =
     leaveQueue s to from @ beforeEachQueue s @ updateQueue s to from
       @ beforeEnterQueue s to from @ enterQueue s to from @ beforeResolveQueue s"
  by (simp add: guardOrder_def Let_def leaveQueue_def beforeEachQueue_def updateQueue_def
        beforeEnterQueue_entering enterQueue_def beforeResolveQueue_def
        extractComponentsGuards_def leavingOf_filter updatingOf_filter)

lemma runGuardQueue_called_prefix:
  "\<exists>k\<le>length gs. snd (snd (runGuardQueue env gs to from s)) = take k gs"
proof (induction gs arbitrary: s)
  case Nil
  show ?case by (simp add: runGuardQueue_Nil)
next
  case (Cons g gs)
  obtain p' s' where step: "guardToPromiseFn env g to from s = (p', s')"
    by (cases "guardToPromiseFn env g to from s")
  obtain p1 s1 c1 where r1: "runGuardQueue env gs to from s' = (p1, s1, c1)"
    by (cases "runGuardQueue env gs to from s'") auto
  obtain k where k: "k \<le> length gs" "c1 = take k gs"
    using Cons.IH [of s'] r1 by auto
  show ?case
  proof (cases p')
    case (Fulfilled u)
    have "snd (snd (runGuardQueue env (g # gs) to from s)) = take (Suc k) (g # gs)"
      using step Fulfilled r1 k by (simp add: runGuardQueue_Cons)
    then show ?thesis
      using k(1) by (intro exI [of _ "Suc k"]) simp
  next
    case (Rejected err)
    have "snd (snd (runGuardQueue env (g # gs) to from s)) = take (Suc 0) (g # gs)"
      using step Rejected by (simp add: runGuardQueue_Cons)
    then show ?thesis
      by (intro exI [of _ "Suc 0"]) simp
  next
    case Pending
    have "snd (snd (runGuardQueue env (g # gs) to from s)) = take (Suc 0) (g # gs)"
      using step Pending by (simp add: runGuardQueue_Cons)
    then show ?thesis
      by (intro exI [of _ "Suc 0"]) simp
  qed
qed

lemma runGuardQueue_Fulfilled_all:
  "fst (runGuardQueue env gs to from s) = Fulfilled () \<Longrightarrow>
   snd (snd (runGuardQueue env gs to from s)) = gs"
proof (induction gs arbitrary: s)
  case Nil
  show ?case by (simp add: runGuardQueue_Nil)
next
  case (Cons g gs)
  obtain p' s' where step: "guardToPromiseFn env g to from s = (p', s')"
    by (cases "guardToPromiseFn env g to from s")
  obtain p1 s1 c1 where r1: "runGuardQueue env gs to from s' = (p1, s1, c1)"
    by (cases "runGuardQueue env gs to from s'") auto
  show ?case
  proof (cases p')
    case (Fulfilled u)
    have "p1 = Fulfilled ()"
      using Cons.prems step Fulfilled r1 by (simp add: runGuardQueue_Cons)
    then have "c1 = gs"
      using Cons.IH [of s'] r1 by simp
    then show ?thesis
      using step Fulfilled r1 by (simp add: runGuardQueue_Cons)
  next
    case (Rejected err)
    then show ?thesis
      using Cons.prems step by (simp add: runGuardQueue_Cons)
  next
    case Pending
    then show ?thesis
      using Cons.prems step by (simp add: runGuardQueue_Cons)
  qed
qed

lemma navigate_one_queue:
  assumes "guardsKeepRegistry env"
  shows "navigate env to from s =
           runGuardQueue env
             (leaveQueue s to from @ beforeEachQueue s @ updateQueue s to from
                @ beforeEnterQueue s to from @ enterQueue s to from @ beforeResolveQueue s)
             to from s"
proof -
  define q1 where "q1 = leaveQueue s to from"
  define q2 where "q2 = beforeEachQueue s"
  define q3 where "q3 = updateQueue s to from"
  define q4 where "q4 = beforeEnterQueue s to from"
  define q5 where "q5 = enterQueue s to from"
  define q6 where "q6 = beforeResolveQueue s"
  define r1 where "r1 = runGuardQueue env q1 to from s"
  define r2 where "r2 = thenStage env to from r1 (\<lambda>s'. beforeEachQueue s')"
  define r3 where "r3 = thenStage env to from r2 (\<lambda>s'. updateQueue s' to from)"
  define r4 where "r4 = thenStage env to from r3 (\<lambda>s'. beforeEnterQueue s' to from)"
  define r5 where "r5 = thenStage env to from r4 (\<lambda>s'. enterQueue s' to from)"
  define r6 where "r6 = thenStage env to from r5 (\<lambda>s'. beforeResolveQueue s')"
  have k1: "guardRegistry (fst (snd r1)) = guardRegistry s"
    unfolding r1_def by (rule runGuardQueue_registry [OF assms])
  have k2: "guardRegistry (fst (snd r2)) = guardRegistry s"
    unfolding r2_def by (rule thenStage_registry [OF assms k1])
  have k3: "guardRegistry (fst (snd r3)) = guardRegistry s"
    unfolding r3_def by (rule thenStage_registry [OF assms k2])
  have k4: "guardRegistry (fst (snd r4)) = guardRegistry s"
    unfolding r4_def by (rule thenStage_registry [OF assms k3])
  have k5: "guardRegistry (fst (snd r5)) = guardRegistry s"
    unfolding r5_def by (rule thenStage_registry [OF assms k4])
  have e2: "r2 = thenStage env to from r1 (\<lambda>s'. q2)"
    unfolding r2_def q2_def
  proof (rule thenStage_fixed [OF k1, of "\<lambda>s'. beforeEachQueue s'"])
    fix s' :: Router
    assume "guardRegistry s' = guardRegistry s"
    then show "beforeEachQueue s' = beforeEachQueue s"
      by (rule queues_registry(1))
  qed
  have e3: "r3 = thenStage env to from r2 (\<lambda>s'. q3)"
    unfolding r3_def q3_def
  proof (rule thenStage_fixed [OF k2, of "\<lambda>s'. updateQueue s' to from"])
    fix s' :: Router
    assume "guardRegistry s' = guardRegistry s"
    then show "updateQueue s' to from = updateQueue s to from"
      by (rule queues_registry(2))
  qed
  have e4: "r4 = thenStage env to from r3 (\<lambda>s'. q4)"
    unfolding r4_def q4_def
  proof (rule thenStage_fixed [OF k3, of "\<lambda>s'. beforeEnterQueue s' to from"])
    fix s' :: Router
    assume "guardRegistry s' = guardRegistry s"
    then show "beforeEnterQueue s' to from = beforeEnterQueue s to from"
      by (rule queues_registry(3))
  qed
  have e5: "r5 = thenStage env to from r4 (\<lambda>s'. q5)"
    unfolding r5_def q5_def
  proof (rule thenStage_fixed [OF k4, of "\<lambda>s'. enterQueue s' to from"])
    fix s' :: Router
    assume "guardRegistry s' = guardRegistry s"
    then show "enterQueue s' to from = enterQueue s to from"
      by (rule queues_registry(4))
  qed
  have e6: "r6 = thenStage env to from r5 (\<lambda>s'. q6)"
    unfolding r6_def q6_def
  proof (rule thenStage_fixed [OF k5, of "\<lambda>s'. beforeResolveQueue s'"])
    fix s' :: Router
    assume "guardRegistry s' = guardRegistry s"
    then show "beforeResolveQueue s' = beforeResolveQueue s"
      by (rule queues_registry(5))
  qed
  have a2: "r2 = runGuardQueue env (q1 @ q2) to from s"
    unfolding e2 r1_def by (rule runGuardQueue_append [symmetric])
  have a3: "r3 = runGuardQueue env ((q1 @ q2) @ q3) to from s"
    unfolding e3 a2 by (rule runGuardQueue_append [symmetric])
  have a4: "r4 = runGuardQueue env (((q1 @ q2) @ q3) @ q4) to from s"
    unfolding e4 a3 by (rule runGuardQueue_append [symmetric])
  have a5: "r5 = runGuardQueue env ((((q1 @ q2) @ q3) @ q4) @ q5) to from s"
    unfolding e5 a4 by (rule runGuardQueue_append [symmetric])
  have a6: "r6 = runGuardQueue env (((((q1 @ q2) @ q3) @ q4) @ q5) @ q6) to from s"
    unfolding e6 a5 by (rule runGuardQueue_append [symmetric])
  have "navigate env to from s = r6"
    by (simp add: navigate_def Let_def r6_def r5_def r4_def r3_def r2_def r1_def q1_def)
  then show ?thesis
    unfolding a6 q1_def q2_def q3_def q4_def q5_def q6_def by simp
qed

section \<open>The order of the guards\<close>

text \<open>
  Claim C1: provided no guard changes the registered guards while it is awaited,
  \<open>navigate\<close> is the run of one sequential queue holding the guards in the mandated
  order: in-component \<open>beforeRouteLeave\<close> of the leaving records from leaf to root,
  their registered \<open>leaveGuards\<close>, the global \<open>beforeEach\<close> guards, in-component
  \<open>beforeRouteUpdate\<close> and registered \<open>updateGuards\<close> of the updating records,
  \<open>beforeEnter\<close> of the entering records only, in-component \<open>beforeRouteEnter\<close> of
  the entering records, the global \<open>beforeResolve\<close> guards. The guards called are a
  prefix of that list, the whole list when the navigation is accepted. A queue calls
  its first guard, and goes on with the rest, from the state the guard has left, only
  when the guard's promise has resolved; a rejected or pending promise ends the run.
\<close>

theorem C1_guard_order:
  assumes "guardsKeepRegistry env"
  shows "navigate env to from s = runGuardQueue env (guardOrder s to from) to from s
       \<and> (\<exists>k\<le>length (guardOrder s to from).
             snd (snd (navigate env to from s)) = take k (guardOrder s to from))
       \<and> (fst (navigate env to from s) = Fulfilled ()
             \<longrightarrow> snd (snd (navigate env to from s)) = guardOrder s to from)
       \<and> (\<forall>g gs s0.
             runGuardQueue env (g # gs) to from s0 =
               (case guardToPromiseFn env g to from s0 of
                  (p, s') \<Rightarrow>
                    (case p of
                       Fulfilled u \<Rightarrow>
                         (case runGuardQueue env gs to from s' of
                            (p', s'', called) \<Rightarrow> (p', s'', g # called))
                     | Rejected err \<Rightarrow> (Rejected err, s', [g])
                     | Pending \<Rightarrow> (Pending, s', [g]))))"
proof -
  have one: "navigate env to from s = runGuardQueue env (guardOrder s to from) to from s"
    by (simp only: navigate_one_queue [OF assms] guardOrder_queues)
  have pre: "\<exists>k\<le>length (guardOrder s to from).
             snd (snd (navigate env to from s)) = take k (guardOrder s to from)"
    unfolding one by (rule runGuardQueue_called_prefix)
  have full: "fst (navigate env to from s) = Fulfilled ()
             \<longrightarrow> snd (snd (navigate env to from s)) = guardOrder s to from"
    unfolding one by (simp add: runGuardQueue_Fulfilled_all)
  have seq: "\<forall>g gs s0.
             runGuardQueue env (g # gs) to from s0 =
               (case guardToPromiseFn env g to from s0 of
                  (p, s') \<Rightarrow>
                    (case p of
                       Fulfilled u \<Rightarrow>
                         (case runGuardQueue env gs to from s' of
                            (p', s'', called) \<Rightarrow> (p', s'', g # called))
                     | Rejected err \<Rightarrow> (Rejected err, s', [g])
                     | Pending \<Rightarrow> (Pending, s', [g])))"
    by (intro allI) (rule runGuardQueue_Cons)
  from one pre full seq show ?thesis by blast
qed

theorem C1_guard_order_witness:
  "snd (snd (navigate quietEnv (Location 2 ''/a/c'' ''/a/c'' None [] [] [] [1, 3] None) locABD routerABD))
     = [12, 10, 11, 13, 20, 21, 30, 31, 40, 41, 50, 60]"
proof -
  have keep: "guardsKeepRegistry quietEnv"
    by (simp add: guardsKeepRegistry_def quietEnv_def)
  have order: "guardOrder routerABD (Location 2 ''/a/c'' ''/a/c'' None [] [] [] [1, 3] None) locABD
                 = [12, 10, 11, 13, 20, 21, 30, 31, 40, 41, 50, 60]"
    by code_simp
  have accepted: "fst (navigate quietEnv (Location 2 ''/a/c'' ''/a/c'' None [] [] [] [1, 3] None) locABD routerABD)
                    = Fulfilled ()"
    by code_simp
  from C1_guard_order [OF keep, of "Location 2 ''/a/c'' ''/a/c'' None [] [] [] [1, 3] None" locABD routerABD]
  have "fst (navigate quietEnv (Location 2 ''/a/c'' ''/a/c'' None [] [] [] [1, 3] None) locABD routerABD)
          = Fulfilled ()
        \<longrightarrow> snd (snd (navigate quietEnv (Location 2 ''/a/c'' ''/a/c'' None [] [] [] [1, 3] None) locABD routerABD))
          = guardOrder routerABD (Location 2 ''/a/c'' ''/a/c'' None [] [] [] [1, 3] None) locABD"
    by blast
  with accepted
  have "snd (snd (navigate quietEnv (Location 2 ''/a/c'' ''/a/c'' None [] [] [] [1, 3] None) locABD routerABD))
          = guardOrder routerABD (Location 2 ''/a/c'' ''/a/c'' None [] [] [] [1, 3] None) locABD"
    by blast
  then show ?thesis
    by (simp only: order)
qed

section \<open>Superseded navigations\<close>

lemma navigateOrDuplicate_navigate:
  assumes "\<not> (force \<noteq> Some True \<and> isSameRouteLocation env from toLocation)"
    and "navigate env toLocation from s = (p, s3, called)"
  shows "navigateOrDuplicate env toLocation from force s =
           (fst (catchNavigation toLocation from (noFailure p) s3),
            snd (catchNavigation toLocation from (noFailure p) s3), called)"
  using assms by (auto simp add: navigateOrDuplicate_def split: prod.split)

lemma catchNavigation_superseded:
  assumes "loc_id (pendingLocation s) \<noteq> loc_id toLocation"
  shows "catchNavigation toLocation from (Rejected error) s =
           (Fulfilled (Some (NavigationFailure NAVIGATION_CANCELLED from toLocation)), s)"
  using assms by (simp add: catchNavigation_def)

lemma noFailure_simps [simp]:
  "noFailure (Fulfilled u) = Fulfilled None"
  "noFailure (Rejected err) = Rejected err"
  "noFailure Pending = Pending"
  by (simp_all add: noFailure_def)

text \<open>
  Claim C2, as stated, has the superseded navigation stop calling its guards. Here
  the route \<open>/x\<close> has the \<open>beforeEnter\<close> guards 70 and 71, and while guard 70 of the
  push to \<open>/x\<close> is awaited the application pushes \<open>/y\<close>, which commits: when guard 70
  answers, the pending location is the object with identity 3, not the target of the
  first push, which has identity 2. The first push still calls guard 71 and the
  \<open>beforeResolve\<close> guard 60, and only then settles as \<open>NAVIGATION_CANCELLED\<close>; the
  current route is \<open>/y\<close> and the only call to the history is the push of \<open>/y\<close>.
\<close>

theorem C2_remaining_guards_counterexample:
  "map_option (\<lambda>(c, s', called). (c, called, path (currentRoute s'), historyCalls s'))
     (push demoEnv 1 (RawString ''/x'') routerABD)
   = Some (Returned (Fulfilled (Some (NavigationFailure NAVIGATION_CANCELLED locABD
                                        (Location 2 ''/x'' ''/x'' None [] [] [] [5] None)))),
           [12, 10, 11, 13, 20, 21, 70, 71, 60],
           ''/y'',
           [HistoryPush (Location 3 ''/y'' ''/y'' None [] [] [] [6] None) None])
   \<and> loc_id (pendingLocation (snd (guardBehaviour demoEnv 70
                (Location 2 ''/x'' ''/x'' None [] [] [] [5] None) locABD
                (routerABD\<lparr>nextLocation := 3,
                   pendingLocation := Location 2 ''/x'' ''/x'' None [] [] [] [5] None\<rparr>)))) = 3"
  by code_simp

text \<open>
  Claim C2, amended: when the pending location, at the moment the guards of a
  navigation have all resolved or one of them has been rejected, is no longer the
  target of that navigation, \<open>pushWithRedirect\<close> resolves with a
  \<open>NAVIGATION_CANCELLED\<close> failure; the state is the one the guards have left, with the
  after hooks called: the current route is not set, the history is not called and
  nothing is reverted. The guards that were called are those that \<open>navigate\<close> calls
  whether or not the navigation is superseded meanwhile: if none of them rejects, and
  none changes the registered guards, they are all the guards of the navigation.
  \<open>finalizeNavigation\<close> compares the pending location before it does anything else
  and answers \<open>NAVIGATION_CANCELLED\<close>, leaving the state as it is. The pending location
  is left to the newer navigation, whose own \<open>finalizeNavigation\<close>, if it comes after,
  commits.
\<close>

theorem C2_superseded_navigation:
  assumes "resolve env (nextLocation s) to (currentRoute s) = Inr targetLocation"
    and "lastMatchedRedirect s targetLocation = None"
    and "\<not> (forceOf to \<noteq> Some True
             \<and> isSameRouteLocation env (currentRoute s) (setRedirectedFrom rf targetLocation))"
    and "navigate env (setRedirectedFrom rf targetLocation) (currentRoute s)
           (s\<lparr>nextLocation := Suc (nextLocation s),
              pendingLocation := setRedirectedFrom rf targetLocation\<rparr>) = (p, s3, called)"
    and "p \<noteq> Pending"
    and "loc_id (pendingLocation s3) \<noteq> loc_id targetLocation"
  shows "pushWithRedirect env (Suc n) to rf s =
           Some (Returned (Fulfilled (Some (NavigationFailure NAVIGATION_CANCELLED (currentRoute s)
                                              (setRedirectedFrom rf targetLocation)))),
                 triggerAfterEach (setRedirectedFrom rf targetLocation) (currentRoute s)
                   (Some (NavigationFailure NAVIGATION_CANCELLED (currentRoute s)
                            (setRedirectedFrom rf targetLocation))) s3,
                 called)
       \<and> (\<forall>c s' called'. pushWithRedirect env (Suc n) to rf s = Some (c, s', called') \<longrightarrow>
             currentRoute s' = currentRoute s3 \<and> historyCalls s' = historyCalls s3
             \<and> records s' = records s3 \<and> pendingLocation s' = pendingLocation s3)
       \<and> (guardsKeepRegistry env \<and> p = Fulfilled () \<longrightarrow>
             called = guardOrder s (setRedirectedFrom rf targetLocation) (currentRoute s))
       \<and> (\<forall>isPush rep data.
             finalizeNavigation env (setRedirectedFrom rf targetLocation) (currentRoute s) isPush rep data s3
               = (Some (NavigationFailure NAVIGATION_CANCELLED (currentRoute s)
                          (setRedirectedFrom rf targetLocation)), s3))
       \<and> (\<forall>newer from' isPush rep data.
             loc_id (pendingLocation s3) = loc_id newer \<longrightarrow>
               fst (finalizeNavigation env newer from' isPush rep data
                      (triggerAfterEach (setRedirectedFrom rf targetLocation) (currentRoute s)
                         (Some (NavigationFailure NAVIGATION_CANCELLED (currentRoute s)
                                  (setRedirectedFrom rf targetLocation))) s3)) = None
             \<and> currentRoute (snd (finalizeNavigation env newer from' isPush rep data
                      (triggerAfterEach (setRedirectedFrom rf targetLocation) (currentRoute s)
                         (Some (NavigationFailure NAVIGATION_CANCELLED (currentRoute s)
                                  (setRedirectedFrom rf targetLocation))) s3))) = newer)"
proof -
  let ?to = "setRedirectedFrom rf targetLocation"
  let ?s2 = "s\<lparr>nextLocation := Suc (nextLocation s), pendingLocation := ?to\<rparr>"
  let ?failure = "NavigationFailure NAVIGATION_CANCELLED (currentRoute s) ?to"
  have sup: "loc_id (pendingLocation s3) \<noteq> loc_id ?to"
    using assms(6) by simp
  have fin: "finalizeNavigation env ?to (currentRoute s) isPush rep data s3 = (Some ?failure, s3)"
    for isPush rep data
    using sup by (rule finalizeNavigation_cancelled)
  have nd: "navigateOrDuplicate env ?to (currentRoute s) (forceOf to) ?s2 =
              (fst (catchNavigation ?to (currentRoute s) (noFailure p) s3),
               snd (catchNavigation ?to (currentRoute s) (noFailure p) s3), called)"
    using assms(3,4) by (rule navigateOrDuplicate_navigate)
  have eq: "pushWithRedirect env (Suc n) to rf s =
              Some (Returned (Fulfilled (Some ?failure)),
                    triggerAfterEach ?to (currentRoute s) (Some ?failure) s3, called)"
  proof (cases p)
    case (Fulfilled u)
    then show ?thesis
      by (subst pushWithRedirect_attempt [OF assms(1,2) nd]) (simp add: fin)
  next
    case (Rejected err)
    then show ?thesis
      by (subst pushWithRedirect_attempt [OF assms(1,2) nd])
         (simp add: catchNavigation_superseded [OF sup])
  next
    case Pending
    then show ?thesis
      using assms(5) by simp
  qed
  have all: "guardsKeepRegistry env \<and> p = Fulfilled () \<longrightarrow>
               called = guardOrder s ?to (currentRoute s)"
  proof
    assume h: "guardsKeepRegistry env \<and> p = Fulfilled ()"
    have one: "navigate env ?to (currentRoute s) ?s2
            = runGuardQueue env (guardOrder ?s2 ?to (currentRoute s)) ?to (currentRoute s) ?s2"
      using h by (simp only: navigate_one_queue guardOrder_queues)
    have rq: "runGuardQueue env (guardOrder ?s2 ?to (currentRoute s)) ?to (currentRoute s) ?s2
            = (p, s3, called)"
      by (simp only: one [symmetric] assms(4))
    have "fst (runGuardQueue env (guardOrder ?s2 ?to (currentRoute s)) ?to (currentRoute s) ?s2)
            = Fulfilled ()"
      by (simp add: rq h)
    then have "snd (snd (runGuardQueue env (guardOrder ?s2 ?to (currentRoute s)) ?to (currentRoute s) ?s2))
            = guardOrder ?s2 ?to (currentRoute s)"
      by (rule runGuardQueue_Fulfilled_all)
    then have "called = guardOrder ?s2 ?to (currentRoute s)"
      by (simp add: rq)
    then show "called = guardOrder s ?to (currentRoute s)"
      by (simp add: guardOrder_def)
  qed
  have newer: "loc_id (pendingLocation s3) = loc_id newer \<longrightarrow>
               fst (finalizeNavigation env newer from' isPush rep data
                      (triggerAfterEach ?to (currentRoute s) (Some ?failure) s3)) = None
             \<and> currentRoute (snd (finalizeNavigation env newer from' isPush rep data
                      (triggerAfterEach ?to (currentRoute s) (Some ?failure) s3))) = newer"
    for newer from' isPush rep data
    by (simp add: finalizeNavigation_commit)
  show ?thesis
    unfolding eq using all fin newer by simp
qed

theorem C2_superseded_navigation_witness:
  "map_option fst (push demoEnv (Suc 0) (RawString ''/x'') routerABD)
     = Some (Returned (Fulfilled (Some (NavigationFailure NAVIGATION_CANCELLED locABD
                                          (Location 2 ''/x'' ''/x'' None [] [] [] [5] None)))))"
proof -
  let ?A = "Location 2 ''/x'' ''/x'' None [] [] [] [5] None"
  let ?X = "navigate demoEnv (setRedirectedFrom None ?A) (currentRoute routerABD)
              (routerABD\<lparr>nextLocation := Suc (nextLocation routerABD),
                 pendingLocation := setRedirectedFrom None ?A\<rparr>)"
  have r: "resolve demoEnv (nextLocation routerABD) (RawString ''/x'') (currentRoute routerABD) = Inr ?A"
    by code_simp
  have l: "lastMatchedRedirect routerABD ?A = None"
    by (simp add: lastMatchedRedirect_def routerABD_def startRouter_def demoRecords_def plainRecord_def)
  have d: "\<not> (forceOf (RawString ''/x'') \<noteq> Some True
             \<and> isSameRouteLocation demoEnv (currentRoute routerABD) (setRedirectedFrom None ?A))"
    by code_simp
  have nav: "?X = (fst ?X, fst (snd ?X), snd (snd ?X))"
    by simp
  have p: "fst ?X \<noteq> Pending"
    by code_simp
  have sup: "loc_id (pendingLocation (fst (snd ?X))) \<noteq> loc_id ?A"
    by code_simp
  have cur: "currentRoute routerABD = locABD" "setRedirectedFrom None ?A = ?A"
    by (simp_all add: routerABD_def setRedirectedFrom_def)
  from C2_superseded_navigation [OF r l d nav p sup, of 0]
  have "pushWithRedirect demoEnv (Suc 0) (RawString ''/x'') None routerABD =
          Some (Returned (Fulfilled (Some (NavigationFailure NAVIGATION_CANCELLED (currentRoute routerABD)
                                             (setRedirectedFrom None ?A)))),
                triggerAfterEach (setRedirectedFrom None ?A) (currentRoute routerABD)
                  (Some (NavigationFailure NAVIGATION_CANCELLED (currentRoute routerABD)
                           (setRedirectedFrom None ?A))) (fst (snd ?X)),
                snd (snd ?X))"
    by blast
  then show ?thesis
    by (simp add: push_def cur)
qed

section \<open>Induction over the redirects\<close>


section \<open>The bound on the redirects\<close>



lemma pushWithRedirect_without_redirect:
  assumes "\<And>t. resolve env (nextLocation s) to (currentRoute s) = Inr t \<Longrightarrow> lastMatchedRedirect s t = None"
    and "\<And>t l s4 called.
           navigateOrDuplicate env (setRedirectedFrom rf t) (currentRoute s) (forceOf to)
             (s\<lparr>nextLocation := Suc (nextLocation s), pendingLocation := setRedirectedFrom rf t\<rparr>)
           \<noteq> (Fulfilled (Some (NavigationRedirectError l)), s4, called)"
  shows "pushWithRedirect env (Suc n) to rf s \<noteq> None"
proof (cases "resolve env (nextLocation s) to (currentRoute s)")
  case (Inl err)
  then show ?thesis by (simp add: pushWithRedirect_throws)
next
  case (Inr t)
  note lmr = assms(1) [OF Inr]
  obtain q s4 called where nd:
    "navigateOrDuplicate env (setRedirectedFrom rf t) (currentRoute s) (forceOf to)
       (s\<lparr>nextLocation := Suc (nextLocation s), pendingLocation := setRedirectedFrom rf t\<rparr>)
     = (q, s4, called)"
    by (cases "navigateOrDuplicate env (setRedirectedFrom rf t) (currentRoute s) (forceOf to)
       (s\<lparr>nextLocation := Suc (nextLocation s), pendingLocation := setRedirectedFrom rf t\<rparr>)") auto
  have "\<forall>l. q \<noteq> Fulfilled (Some (NavigationRedirectError l))"
    using assms(2) [of t _ s4 called] nd by auto
  then show ?thesis
    by (subst pushWithRedirect_attempt [OF Inr lmr nd])
       (auto split: Promise.split option.split RouterError.split prod.split)
qed

section \<open>What a navigation can end with\<close>









section \<open>Failures, rejections and error handlers\<close>

lemma adopt_simps [simp]:
  "adopt (Threw err) = Rejected err"
  "adopt (Returned p) = p"
  by (simp_all add: adopt_def)





section \<open>Redirects\<close>


lemma options_of_redirectTarget [simp]:
  "stateOf (RawObject (redirectTarget t new data force rep)) = data"
  "forceOf (RawObject (redirectTarget t new data force rep)) = force"
  "replaceOf (RawObject (redirectTarget t new data force rep)) = rep"
  by (simp_all add: stateOf_def forceOf_def replaceOf_def redirectTarget_def)

lemma options_of_guardRedirectTarget [simp]:
  "stateOf (RawObject (guardRedirectTarget failureTo data force rep)) = data"
  "forceOf (RawObject (guardRedirectTarget failureTo data force rep)) = force"
  "replaceOf (RawObject (guardRedirectTarget failureTo data force rep)) = rep"
  by (simp_all add: stateOf_def forceOf_def replaceOf_def guardRedirectTarget_def)





section \<open>Push and replace\<close>


lemma options_ignore_replace [simp]:
  "stateOf (RawObject (obj\<lparr>o_replace := r\<rparr>)) = o_state obj"
  "forceOf (RawObject (obj\<lparr>o_replace := r\<rparr>)) = o_force obj"
  by (simp_all add: stateOf_def forceOf_def)



lemma differInLastHistoryCall_refl [simp]: "differInLastHistoryCall s s"
  by (simp add: differInLastHistoryCall_def)

lemma samePushResult_refl [simp]: "samePushResult r r"
  by (simp add: samePushResult_def split: option.split prod.split)






section \<open>Replace is a push\<close>







end
